theory Spec2Isabelle
  imports Complex_Main "HOL-Library.Log_Nat"
begin

section \<open>Data model (types.ts, lines 1--31)\<close>

text \<open>
  The simulation of the coin catcher lives in one file, \<^verbatim>\<open>types.ts\<close>: the
  interfaces of the game state, then the \<^verbatim>\<open>Game\<close> component with its tick, its
  one-second timer and its deferred power-up expiries.

  A TypeScript \<^verbatim>\<open>number\<close> is an IEEE double. Its values are modelled as reals.
  The difficulty multiplier, whose exact values a claim speaks about, is computed with
  the rounding of each operation written out (\<open>roundDouble\<close> below); the other
  operations on positions, speeds and times are taken over the reals, and infinities and
  NaN are outside the model. The optional \<^verbatim>\<open>rotation\<close> is an option.
  The field \<^verbatim>\<open>type\<close> of a collectible is \<open>ctype\<close> here and that of an obstacle
  \<open>otype\<close>, since the two records live in one name space.
\<close>

record GameObject =
  x :: real
  y :: real
  width :: real
  height :: real
  rotation :: "real option"

record Player = GameObject +
  velocity :: real
  isInvincible :: bool
  hasDoublePoints :: bool

datatype CollectibleType = token | moonRocket | diamondHands

datatype ObstacleType = rugPull | marketDump | whaleWave

record Collectible = GameObject +
  ctype :: CollectibleType

record Obstacle = GameObject +
  otype :: ObstacleType

record GameState =
  player :: Player
  collectibles :: "Collectible list"
  obstacles :: "Obstacle list"
  score :: real
  timeLeft :: real
  isGameOver :: bool
  isPaused :: bool

section \<open>Constants (lines 37--60)\<close>

definition BASE_GAME_WIDTH :: real where "BASE_GAME_WIDTH = 800"
definition BASE_GAME_HEIGHT :: real where "BASE_GAME_HEIGHT = 600"
definition GRAVITY :: real where "GRAVITY = 0.3"
definition JUMP_FORCE :: real where "JUMP_FORCE = - 7"
definition PLAYER_SIZE :: real where "PLAYER_SIZE = 40"
definition INITIAL_TIME :: real where "INITIAL_TIME = 30"

fun TIME_BONUS :: "CollectibleType \<Rightarrow> real" where
  "TIME_BONUS token = 2"
| "TIME_BONUS moonRocket = 5"
| "TIME_BONUS diamondHands = 3"

fun SCORE_VALUES :: "CollectibleType \<Rightarrow> real" where
  "SCORE_VALUES token = 10"
| "SCORE_VALUES moonRocket = 15"
| "SCORE_VALUES diamondHands = 20"

definition BASE_HORIZONTAL_SPEED :: real where "BASE_HORIZONTAL_SPEED = 3"
definition BASE_OBSTACLE_SPEED :: real where "BASE_OBSTACLE_SPEED = 4"
definition BASE_SPAWN_RATE_collectible :: real where "BASE_SPAWN_RATE_collectible = 0.015"
definition BASE_SPAWN_RATE_obstacle :: real where "BASE_SPAWN_RATE_obstacle = 0.008"

section \<open>Rounding to a double\<close>

text \<open>
  An arithmetic operation on doubles returns the double nearest to the exact result,
  a tie going to the neighbour with an even significand. \<open>roundHalfEven\<close> rounds a
  real to the nearest integer in that way, \<open>binade a\<close> is the exponent \<open>e\<close> with
  \<open>2^e \<le> a < 2^(e+1)\<close> for a positive \<open>a\<close> (computed from the bit length of the integer
  part of \<open>a\<close>, or of \<open>1 / a\<close> below 1), and \<open>roundDouble\<close> rounds to 53 significant
  bits. The exponent is not bounded: overflow to infinity and subnormal numbers, below
  \<open>2^-1022\<close>, are not modelled.
\<close>

definition roundHalfEven :: "real \<Rightarrow> int" where
  "roundHalfEven q =
     (let n = \<lfloor>q\<rfloor>; r = q - of_int n
      in if r < 1 / 2 then n else if 1 / 2 < r then n + 1 else if even n then n else n + 1)"

definition binade :: "real \<Rightarrow> int" where
  "binade a =
     (if 1 \<le> a then int (floorlog 2 (nat \<lfloor>a\<rfloor>)) - 1
      else - int (floorlog 2 (nat (\<lceil>1 / a\<rceil> - 1))))"

definition roundDouble :: "real \<Rightarrow> real" where
  "roundDouble v =
     (if v = 0 then 0
      else (let ulp = 2 powi (binade \<bar>v\<bar> - 52) in of_int (roundHalfEven (v / ulp)) * ulp))"

section \<open>Difficulty model (lines 62--80)\<close>

text \<open>\<^verbatim>\<open>1 + Math.floor(score / 100) * 0.2\<close>: the literal \<open>0.2\<close> is the double nearest to
  one fifth, and the division, the product and the sum are each rounded. The floor of a
  double is an integer, exact below \<open>2^53\<close>.\<close>

definition getDifficultyMultiplier :: "real \<Rightarrow> real" where
  "getDifficultyMultiplier sc =
     roundDouble (1 + roundDouble (of_int \<lfloor>roundDouble (sc / 100)\<rfloor> * roundDouble 0.2))"

text \<open>\<^verbatim>\<open>getSpawnRates\<close> and \<^verbatim>\<open>getSpeeds\<close> return an object with two fields; each
  field is a function here.\<close>

definition spawnRate_collectible :: "real \<Rightarrow> real" where
  "spawnRate_collectible sc =
     min (BASE_SPAWN_RATE_collectible * getDifficultyMultiplier sc) 0.03"

definition spawnRate_obstacle :: "real \<Rightarrow> real" where
  "spawnRate_obstacle sc =
     min (BASE_SPAWN_RATE_obstacle * getDifficultyMultiplier sc) 0.02"

definition speed_horizontal :: "real \<Rightarrow> real" where
  "speed_horizontal sc = BASE_HORIZONTAL_SPEED * getDifficultyMultiplier sc"

definition speed_obstacle :: "real \<Rightarrow> real" where
  "speed_obstacle sc = BASE_OBSTACLE_SPEED * getDifficultyMultiplier sc"

section \<open>Initial session (lines 82--101) and restart (lines 353--363)\<close>

definition initialPlayer :: Player where
  "initialPlayer =
     \<lparr> x = 100, y = BASE_GAME_HEIGHT / 2, width = PLAYER_SIZE, height = PLAYER_SIZE,
       rotation = None, velocity = 0, isInvincible = False, hasDoublePoints = False \<rparr>"

definition initialGameState :: GameState where
  "initialGameState =
     \<lparr> player = initialPlayer, collectibles = [], obstacles = [], score = 0,
       timeLeft = INITIAL_TIME, isGameOver = False, isPaused = False \<rparr>"

text \<open>\<^verbatim>\<open>restartGame\<close> sets the state to an object literal equal to the initial one,
  whatever the previous state was.\<close>

definition restartGame :: "GameState \<Rightarrow> GameState" where
  "restartGame prev =
     \<lparr> player = initialPlayer, collectibles = [], obstacles = [], score = 0,
       timeLeft = INITIAL_TIME, isGameOver = False, isPaused = False \<rparr>"

section \<open>Jump (lines 137--145)\<close>

definition handleInteraction :: "GameState \<Rightarrow> GameState" where
  "handleInteraction prev = prev\<lparr> player := (player prev)\<lparr> velocity := JUMP_FORCE \<rparr> \<rparr>"

section \<open>Entity factory (lines 153--181)\<close>

text \<open>
  Each call of \<^verbatim>\<open>Math.random()\<close> is an argument of the model, in the order of the
  calls: the draw for the kind, the draw for the rotation, the draw for \<open>y\<close>.
  ECMAScript gives a draw in \<open>[0, 1)\<close>, so the index \<open>floor (u * 3)\<close> is 0, 1 or 2;
  the last branch of the selection is the index 2.
\<close>

definition pickCollectibleType :: "real \<Rightarrow> CollectibleType" where
  "pickCollectibleType u =
     (let i = \<lfloor>u * 3\<rfloor> in if i = 0 then token else if i = 1 then moonRocket else diamondHands)"

definition pickObstacleType :: "real \<Rightarrow> ObstacleType" where
  "pickObstacleType u =
     (let i = \<lfloor>u * 3\<rfloor> in if i = 0 then rugPull else if i = 1 then marketDump else whaleWave)"

definition spawnCollectible :: "real \<Rightarrow> real \<Rightarrow> real \<Rightarrow> Collectible" where
  "spawnCollectible uType uRot uY =
     \<lparr> x = BASE_GAME_WIDTH,
       y = uY * (BASE_GAME_HEIGHT - PLAYER_SIZE),
       width = PLAYER_SIZE,
       height = PLAYER_SIZE,
       rotation = Some (uRot * 360),
       ctype = pickCollectibleType uType \<rparr>"

definition spawnObstacle :: "real \<Rightarrow> real \<Rightarrow> real \<Rightarrow> Obstacle" where
  "spawnObstacle uType uRot uY =
     \<lparr> x = BASE_GAME_WIDTH,
       y = uY * (BASE_GAME_HEIGHT - PLAYER_SIZE),
       width = PLAYER_SIZE * 1.5,
       height = PLAYER_SIZE * 1.5,
       rotation = Some (uRot * 360),
       otype = pickObstacleType uType \<rparr>"

section \<open>Scoring (lines 183--187)\<close>

definition updateScore :: "CollectibleType \<Rightarrow> bool \<Rightarrow> real" where
  "updateScore collectibleType dbl =
     (let baseScore = SCORE_VALUES collectibleType;
          multiplier = (if dbl then 2 else 1)
      in baseScore * multiplier)"

section \<open>Collision resolver (lines 189--248)\<close>

text \<open>The axis-aligned overlap test, written twice in the source (lines 197--202 for a
  collectible, lines 233--238 for an obstacle) with the same four comparisons.\<close>

definition hasCollided :: "Player \<Rightarrow> 'a GameObject_scheme \<Rightarrow> bool" where
  "hasCollided p e \<longleftrightarrow>
     x p < x e + width e \<and>
     x p + width p > x e \<and>
     y p < y e + height e \<and>
     y p + height p > y e"

text \<open>
  A \<^verbatim>\<open>setTimeout\<close> call is recorded as the delay in milliseconds and the flag its
  callback clears. The callbacks themselves (lines 212--215 and 221--224) are state
  updaters, applied to whatever state is current when they run.
\<close>

datatype Expiry = ClearDoublePoints | ClearInvincible

fun expiryCallback :: "Expiry \<Rightarrow> GameState \<Rightarrow> GameState" where
  "expiryCallback ClearDoublePoints prev =
     prev\<lparr> player := (player prev)\<lparr> hasDoublePoints := False \<rparr> \<rparr>"
| "expiryCallback ClearInvincible prev =
     prev\<lparr> player := (player prev)\<lparr> isInvincible := False \<rparr> \<rparr>"

text \<open>The local variables of \<^verbatim>\<open>checkCollisions\<close> that the filter callback assigns,
  and the timeouts it has set so far.\<close>

record Locals =
  newScore :: real
  locInvincible :: bool
  locDoublePoints :: bool
  timeBonus :: real
  timeouts :: "(real \<times> Expiry) list"

text \<open>The body of the filter callback for one collided collectible (lines 205--227).
  The score is computed from \<^verbatim>\<open>player.hasDoublePoints\<close>, the field of the player
  passed in, not from the local variable of the same name.\<close>

definition collect :: "Player \<Rightarrow> Collectible \<Rightarrow> Locals \<Rightarrow> Locals" where
  "collect p c a =
     (let a1 = a\<lparr> timeBonus := timeBonus a + TIME_BONUS (ctype c) \<rparr>;
          a2 = a1\<lparr> newScore := newScore a1 + updateScore (ctype c) (hasDoublePoints p) \<rparr>
      in case ctype c of
           moonRocket \<Rightarrow>
             a2\<lparr> locDoublePoints := True, timeouts := timeouts a2 @ [(5000, ClearDoublePoints)] \<rparr>
         | diamondHands \<Rightarrow>
             a2\<lparr> locInvincible := True, timeouts := timeouts a2 @ [(3000, ClearInvincible)] \<rparr>
         | token \<Rightarrow> a2)"

text \<open>\<^verbatim>\<open>collectibles.filter\<close> with its side effects, in list order: the kept
  collectibles and the locals after the last callback.\<close>

fun filterCollected :: "Player \<Rightarrow> Collectible list \<Rightarrow> Locals \<Rightarrow> Collectible list \<times> Locals" where
  "filterCollected p [] a = ([], a)"
| "filterCollected p (c # cs) a =
     (if hasCollided p c then filterCollected p cs (collect p c a)
      else (let (keep, a') = filterCollected p cs a in (c # keep, a')))"

text \<open>The result is the new state and the timeouts set during the call.\<close>

definition checkCollisions :: "GameState \<Rightarrow> GameState \<times> (real \<times> Expiry) list" where
  "checkCollisions state =
     (let p = player state;
          a0 = \<lparr> newScore = score state, locInvincible = isInvincible p,
                 locDoublePoints = hasDoublePoints p, timeBonus = 0, timeouts = [] \<rparr>;
          (remainingCollectibles, a) = filterCollected p (collectibles state) a0;
          hasHitObstacle = list_ex (hasCollided p) (obstacles state)
      in (state\<lparr> player := p\<lparr> isInvincible := locInvincible a,
                               hasDoublePoints := locDoublePoints a \<rparr>,
                 collectibles := remainingCollectibles,
                 score := newScore a,
                 timeLeft := timeLeft state + timeBonus a,
                 isGameOver := (hasHitObstacle \<and> \<not> locInvincible a) \<or> timeLeft state \<le> 0 \<rparr>,
          timeouts a))"

section \<open>The tick (lines 250--320)\<close>

text \<open>The eight draws of \<^verbatim>\<open>Math.random()\<close> one tick can make: the two spawn
  decisions (lines 279--280), then the three draws of each factory call.\<close>

record Draws =
  rollCollectible :: real
  rollObstacle :: real
  cTypeDraw :: real
  cRotDraw :: real
  cYDraw :: real
  oTypeDraw :: real
  oRotDraw :: real
  oYDraw :: real

text \<open>Physics integration and clamping of the player (lines 258--274).\<close>

definition integratePlayer :: "Player \<Rightarrow> Player" where
  "integratePlayer p =
     (let newVelocity = velocity p + GRAVITY;
          newY = y p + newVelocity;
          newPlayer = p\<lparr> y := newY, velocity := newVelocity \<rparr>;
          newPlayer = (if y newPlayer > BASE_GAME_HEIGHT - PLAYER_SIZE
                       then newPlayer\<lparr> y := BASE_GAME_HEIGHT - PLAYER_SIZE, velocity := 0 \<rparr>
                       else newPlayer);
          newPlayer = (if y newPlayer < 0
                       then newPlayer\<lparr> y := 0, velocity := max 0 (velocity newPlayer) \<rparr>
                       else newPlayer)
      in newPlayer)"

text \<open>Culling and scrolling of the two populations (lines 287--292 and 297--302).
  Both filters compare with \<^verbatim>\<open>-PLAYER_SIZE\<close>.\<close>

definition scrollCollectibles :: "real \<Rightarrow> Collectible list \<Rightarrow> Collectible list" where
  "scrollCollectibles horizontalMove cs =
     map (\<lambda>c. c\<lparr> x := x c - horizontalMove \<rparr>) (filter (\<lambda>c. x c > - PLAYER_SIZE) cs)"

definition scrollObstacles :: "real \<Rightarrow> Obstacle list \<Rightarrow> Obstacle list" where
  "scrollObstacles obstacleMove os =
     map (\<lambda>ob. ob\<lparr> x := x ob - obstacleMove \<rparr>) (filter (\<lambda>ob. x ob > - PLAYER_SIZE) os)"

text \<open>The state after physics, scrolling and spawning, before collision resolution
  (lines 258--311), for the elapsed time \<open>deltaTime\<close> and the draws \<open>d\<close>.\<close>

definition newState :: "real \<Rightarrow> Draws \<Rightarrow> GameState \<Rightarrow> GameState" where
  "newState deltaTime d prev =
     (let newPlayer = integratePlayer (player prev);
          shouldSpawnCollectible = (rollCollectible d < spawnRate_collectible (score prev));
          shouldSpawnObstacle = (rollObstacle d < spawnRate_obstacle (score prev));
          timeScale = deltaTime / 16;
          horizontalMove = speed_horizontal (score prev) * timeScale;
          obstacleMove = speed_obstacle (score prev) * timeScale;
          newCollectibles =
            scrollCollectibles horizontalMove (collectibles prev) @
            (if shouldSpawnCollectible
             then [spawnCollectible (cTypeDraw d) (cRotDraw d) (cYDraw d)] else []);
          newObstacles =
            scrollObstacles obstacleMove (obstacles prev) @
            (if shouldSpawnObstacle
             then [spawnObstacle (oTypeDraw d) (oRotDraw d) (oYDraw d)] else [])
      in prev\<lparr> player := newPlayer, collectibles := newCollectibles,
                obstacles := newObstacles \<rparr>)"

text \<open>The updater passed to \<^verbatim>\<open>setGameState\<close> (lines 255--314): the guard of line 256,
  then collision resolution on the moved state.\<close>

definition gameLoopUpdate ::
  "real \<Rightarrow> Draws \<Rightarrow> GameState \<Rightarrow> GameState \<times> (real \<times> Expiry) list" where
  "gameLoopUpdate deltaTime d prev =
     (if isGameOver prev \<or> isPaused prev then (prev, [])
      else checkCollisions (newState deltaTime d prev))"

section \<open>The drivers and the pending timeouts\<close>

text \<open>
  The component holds the session, the reference \<^verbatim>\<open>lastTimeRef\<close> of the frame
  driver, and (in the browser) the timeouts that were set and have not run yet, each
  with the time at which it is due. No timeout handle is kept by the source and
  \<^verbatim>\<open>clearTimeout\<close> is never called.
\<close>

record World =
  session :: GameState
  lastTime :: real
  pending :: "(real \<times> Expiry) list"

text \<open>One animation frame at \<open>timestamp\<close> (lines 250--320): the tick runs when more
  than 16 ms have passed since the last tick, and the timeouts it sets are due their
  delay after the frame.\<close>

definition gameLoop :: "real \<Rightarrow> Draws \<Rightarrow> World \<Rightarrow> World" where
  "gameLoop timestamp d w =
     (let lt = (if lastTime w = 0 then timestamp else lastTime w);
          deltaTime = timestamp - lt
      in if deltaTime > 16
         then (let (s', ts) = gameLoopUpdate deltaTime d (session w)
               in w\<lparr> session := s', lastTime := timestamp,
                     pending := pending w @ map (\<lambda>(delay, e). (timestamp + delay, e)) ts \<rparr>)
         else w\<lparr> lastTime := lt \<rparr>)"

text \<open>The callback of the one-second interval (lines 325--328), and the effect that
  installs the interval only while the session is neither over nor paused (line 323).\<close>

definition timerCallback :: "GameState \<Rightarrow> GameState" where
  "timerCallback prev = prev\<lparr> timeLeft := max 0 (timeLeft prev - 1) \<rparr>"

definition timerEffect :: "World \<Rightarrow> World" where
  "timerEffect w =
     (if \<not> isGameOver (session w) \<and> \<not> isPaused (session w)
      then w\<lparr> session := timerCallback (session w) \<rparr> else w)"

text \<open>Running the timeouts that are due at time \<open>now\<close>, in the order they were set.\<close>

fun runDue :: "real \<Rightarrow> (real \<times> Expiry) list \<Rightarrow> GameState \<Rightarrow> GameState" where
  "runDue now [] s = s"
| "runDue now ((due, e) # ts) s =
     (if due \<le> now then runDue now ts (expiryCallback e s) else runDue now ts s)"

definition fireTimeouts :: "real \<Rightarrow> World \<Rightarrow> World" where
  "fireTimeouts now w =
     w\<lparr> session := runDue now (pending w) (session w),
        pending := filter (\<lambda>(due, e). \<not> due \<le> now) (pending w) \<rparr>"

datatype Event =
    Frame real Draws
  | TimerSecond
  | Jump
  | Timeouts real
  | Restart

fun step :: "Event \<Rightarrow> World \<Rightarrow> World" where
  "step (Frame timestamp d) w = gameLoop timestamp d w"
| "step TimerSecond w = timerEffect w"
| "step Jump w = w\<lparr> session := handleInteraction (session w) \<rparr>"
| "step (Timeouts now) w = fireTimeouts now w"
| "step Restart w = w\<lparr> session := restartGame (session w) \<rparr>"

fun run :: "Event list \<Rightarrow> World \<Rightarrow> World" where
  "run [] w = w"
| "run (e # es) w = run es (step e w)"

definition initialWorld :: World where
  "initialWorld = \<lparr> session = initialGameState, lastTime = 0, pending = [] \<rparr>"

section \<open>Concrete sessions and draws\<close>

text \<open>Inputs on which the theorems below are evaluated: draws that spawn nothing, entities
  of the two sizes the factory produces, and sessions a game reaches.\<close>

definition noSpawn :: Draws where
  "noSpawn = \<lparr> rollCollectible = 0.5, rollObstacle = 0.5, cTypeDraw = 0.5, cRotDraw = 0.5,
               cYDraw = 0.5, oTypeDraw = 0.5, oRotDraw = 0.5, oYDraw = 0.5 \<rparr>"

definition mkCollectible :: "CollectibleType \<Rightarrow> real \<Rightarrow> real \<Rightarrow> Collectible" where
  "mkCollectible k cx cy =
     \<lparr> x = cx, y = cy, width = 40, height = 40, rotation = Some 0, ctype = k \<rparr>"

definition mkObstacle :: "real \<Rightarrow> real \<Rightarrow> Obstacle" where
  "mkObstacle ox oy =
     \<lparr> x = ox, y = oy, width = 60, height = 60, rotation = Some 0, otype = rugPull \<rparr>"


definition shieldedCrash :: GameState where
  "shieldedCrash =
     initialGameState\<lparr> collectibles := [mkCollectible diamondHands 110 300],
                       obstacles := [mkObstacle 120 310] \<rparr>"

definition doublePickup :: GameState where
  "doublePickup =
     initialGameState\<lparr> collectibles :=
       [mkCollectible token 110 300, mkCollectible token 500 300,
        mkCollectible diamondHands 120 310] \<rparr>"

definition rocketThenToken :: GameState where
  "rocketThenToken =
     initialGameState\<lparr> collectibles :=
       [mkCollectible moonRocket 110 300, mkCollectible token 120 310] \<rparr>"

definition spawnRocket :: Draws where
  "spawnRocket = \<lparr> rollCollectible = 0, rollObstacle = 0.5, cTypeDraw = 0.5, cRotDraw = 0.5,
                  cYDraw = 0.5, oTypeDraw = 0.5, oRotDraw = 0.5, oYDraw = 0.5 \<rparr>"

definition spawnRock :: Draws where
  "spawnRock = \<lparr> rollCollectible = 0.5, rollObstacle = 0, cTypeDraw = 0.5, cRotDraw = 0.5,
                  cYDraw = 0.5, oTypeDraw = 0.5, oRotDraw = 0.5, oYDraw = 0.5 \<rparr>"

text \<open>
  Two games in a row, from the initial world; frames are given by their timestamp in
  milliseconds, and some come late (a tab that was in the background). In the first game
  a \<open>moonRocket\<close> is spawned at frame 1017 and an obstacle at frame 2017; the rocket is
  collected at frame 4617, which sets the 5000 ms timeout due at 9617, and the obstacle
  hits the player at frame 4677: game over. The second game is started by a restart
  about 1.3 s later; its rocket is spawned at frame 6000 and collected at frame 9600.
\<close>

definition firstGame :: "Event list" where
  "firstGame =
     [Frame 1000 noSpawn, Frame 1017 spawnRocket, TimerSecond, Frame 2017 spawnRock,
      TimerSecond, TimerSecond, Frame 4617 noSpawn, Frame 4677 noSpawn]"

definition secondGame :: "Event list" where
  "secondGame =
     [Frame 5983 noSpawn, Restart, Frame 6000 spawnRocket, TimerSecond, TimerSecond,
      TimerSecond, Frame 9600 noSpawn]"

text \<open>An obstacle 198 ticks of 17 ms after its spawn: \<open>800 - 198 * 4.25\<close>.\<close>

definition lingeringObstacle :: Obstacle where
  "lingeringObstacle = mkObstacle (- 41.5) 100"

section \<open>Facts about the constants and the difficulty model\<close>

lemmas consts_defs =
  BASE_GAME_WIDTH_def BASE_GAME_HEIGHT_def GRAVITY_def JUMP_FORCE_def PLAYER_SIZE_def
  INITIAL_TIME_def BASE_HORIZONTAL_SPEED_def BASE_OBSTACLE_SPEED_def
  BASE_SPAWN_RATE_collectible_def BASE_SPAWN_RATE_obstacle_def

section \<open>Facts about rounding\<close>

lemma roundHalfEven_near: "\<bar>of_int (roundHalfEven q) - q\<bar> \<le> 1 / 2"
  unfolding roundHalfEven_def Let_def by (auto simp: abs_le_iff)

lemma roundHalfEven_of_int [simp]: "roundHalfEven (of_int n) = n"
  by (simp add: roundHalfEven_def)

lemma roundHalfEven_range: "\<lfloor>q\<rfloor> \<le> roundHalfEven q \<and> roundHalfEven q \<le> \<lfloor>q\<rfloor> + 1"
  by (simp add: roundHalfEven_def Let_def)

lemma roundHalfEven_mono: "q \<le> q' \<Longrightarrow> roundHalfEven q \<le> roundHalfEven q'"
proof -
  assume le: "q \<le> q'"
  then have fl: "\<lfloor>q\<rfloor> \<le> \<lfloor>q'\<rfloor>" by (rule floor_mono)
  show ?thesis
  proof (cases "\<lfloor>q\<rfloor> = \<lfloor>q'\<rfloor>")
    case True
    with le show ?thesis by (auto simp: roundHalfEven_def Let_def)
  next
    case False
    with fl have "\<lfloor>q\<rfloor> + 1 \<le> \<lfloor>q'\<rfloor>" by simp
    with roundHalfEven_range [of q] roundHalfEven_range [of q'] show ?thesis by linarith
  qed
qed

lemma nat_power_bounds_real:
  fixes n L :: nat
  assumes "2 ^ (L - 1) \<le> n" and "n < 2 ^ L"
  shows "(2::real) ^ (L - 1) \<le> real n" and "real n + 1 \<le> 2 ^ L"
proof -
  from assms(1) have "real (2 ^ (L - 1)) \<le> real n" by (simp only: of_nat_le_iff)
  then show "(2::real) ^ (L - 1) \<le> real n" by simp
  from assms(2) have "Suc n \<le> 2 ^ L" by simp
  then have "real (Suc n) \<le> real (2 ^ L)" by (simp only: of_nat_le_iff)
  then show "real n + 1 \<le> 2 ^ L" by simp
qed

lemma binade_bounds:
  assumes "0 < a"
  shows "2 powi (binade a) \<le> a \<and> a < 2 powi (binade a + 1)"
proof (cases "1 \<le> a")
  case True
  define n where "n = nat \<lfloor>a\<rfloor>"
  define L where "L = floorlog 2 n"
  from True have n: "0 < n" "real n \<le> a" "a < real n + 1"
    unfolding n_def by (simp_all add: zero_less_nat_eq)
  have "2 ^ (L - 1) \<le> n \<and> n < 2 ^ L"
    unfolding L_def using n(1) by (intro floorlog_bounds) simp_all
  then have b: "(2::real) ^ (L - 1) \<le> real n" "real n + 1 \<le> 2 ^ L"
    using nat_power_bounds_real [of L n] by blast+
  from n(1) have "L \<noteq> 0" by (simp add: L_def floorlog_eq_zero_iff)
  then obtain L' where L': "L = Suc L'" by (cases L) simp_all
  have "binade a = int L - 1" using True by (simp add: binade_def n_def L_def)
  then have e: "binade a = int L'" by (simp add: L')
  have lo: "(2::real) powi (binade a) = 2 ^ (L - 1)" by (simp add: e L')
  have "binade a + 1 = int L" by (simp add: e L')
  then have hi: "(2::real) powi (binade a + 1) = 2 ^ L" by (simp only: power_int_of_nat)
  show ?thesis unfolding lo hi using n b by linarith
next
  case False
  define m where "m = \<lceil>1 / a\<rceil>"
  define k where "k = nat (m - 1)"
  define J where "J = floorlog 2 k"
  from False assms have inv: "1 < 1 / a" by simp
  then have m: "2 \<le> m" "1 / a \<le> of_int m" "of_int m - 1 < 1 / a"
    unfolding m_def by (simp_all add: le_ceiling_iff) linarith+
  then have k: "0 < k" "real k = of_int m - 1" by (simp_all add: k_def)
  have "2 ^ (J - 1) \<le> k \<and> k < 2 ^ J"
    unfolding J_def using k(1) by (intro floorlog_bounds) simp_all
  then have b: "(2::real) ^ (J - 1) \<le> real k" "real k + 1 \<le> 2 ^ J"
    using nat_power_bounds_real [of J k] by blast+
  from k(1) have "J \<noteq> 0" by (simp add: J_def floorlog_eq_zero_iff)
  then obtain J' where J': "J = Suc J'" by (cases J) simp_all
  have e: "binade a = - int J" using False by (simp add: binade_def m_def k_def J_def)
  have lo: "(2::real) powi (binade a) = 1 / 2 ^ J"
    unfolding e by (simp only: power_int_minus power_int_of_nat inverse_eq_divide)
  have "binade a + 1 = - int J'" by (simp add: e J')
  then have hi: "(2::real) powi (binade a + 1) = 1 / 2 ^ (J - 1)"
    by (simp only: power_int_minus power_int_of_nat inverse_eq_divide J' diff_Suc_1)
  have "1 / a \<le> 2 ^ J" using m(2) k(2) b(2) by linarith
  then have "1 / 2 ^ J \<le> a" using assms by (simp add: field_simps)
  moreover have "2 ^ (J - 1) < 1 / a" using m(3) k(2) b(1) by linarith
  then have "a < 1 / 2 ^ (J - 1)" using assms by (simp add: field_simps)
  ultimately show ?thesis unfolding lo hi by simp
qed

lemma binade_eqI:
  assumes "2 powi e \<le> a" and "a < 2 powi (e + 1)"
  shows "binade a = e"
proof -
  have "(0::real) < 2 powi e" by simp
  with assms(1) have pos: "0 < a" by linarith
  from binade_bounds [OF pos] have b: "2 powi (binade a) \<le> a" "a < 2 powi (binade a + 1)"
    by simp_all
  have "(2::real) powi e < 2 powi (binade a + 1)" using assms(1) b(2) by linarith
  then have 1: "e < binade a + 1"
    using power_int_increasing [of "binade a + 1" e "2::real"] by (cases "e < binade a + 1") auto
  have "(2::real) powi (binade a) < 2 powi (e + 1)" using assms(2) b(1) by linarith
  then have 2: "binade a < e + 1"
    using power_int_increasing [of "e + 1" "binade a" "2::real"] by (cases "binade a < e + 1") auto
  from 1 2 show ?thesis by simp
qed

lemma roundDouble_zero [simp]: "roundDouble 0 = 0"
  by (simp add: roundDouble_def)

lemma roundDouble_pos:
  "0 < v \<Longrightarrow>
   roundDouble v = of_int (roundHalfEven (v / 2 powi (binade v - 52))) * 2 powi (binade v - 52)"
  by (simp add: roundDouble_def Let_def)

lemma ulp_scale:
  "(2::real) ^ 52 * 2 powi (e - 52) = 2 powi e"
  "(2::real) ^ 53 * 2 powi (e - 52) = 2 powi (e + 1)"
  "(2::real) ^ 53 * 2 powi e = 2 powi (53 + e)"
proof -
  have "(2::real) powi 53 * 2 powi e = 2 powi (53 + e)"
    by (rule power_int_add [symmetric]) simp
  then show "(2::real) ^ 53 * 2 powi e = 2 powi (53 + e)" by simp
  have "(2::real) powi 52 * 2 powi (e - 52) = 2 powi (52 + (e - 52))"
    by (rule power_int_add [symmetric]) simp
  then show "(2::real) ^ 52 * 2 powi (e - 52) = 2 powi e" by simp
  have "(2::real) powi 53 * 2 powi (e - 52) = 2 powi (53 + (e - 52))"
    by (rule power_int_add [symmetric]) simp
  moreover have "53 + (e - 52) = e + 1" by simp
  ultimately show "(2::real) ^ 53 * 2 powi (e - 52) = 2 powi (e + 1)" by simp
qed

lemma scaled_in_binade:
  fixes v :: real
  assumes "2 powi e \<le> v" and "v \<le> 2 powi (e + 1)"
  shows "2 ^ 52 \<le> v / 2 powi (e - 52) \<and> v / 2 powi (e - 52) \<le> 2 ^ 53"
proof -
  define u :: real where "u = 2 powi (e - 52)"
  have u: "0 < u" by (simp add: u_def)
  from assms have "2 ^ 52 * u \<le> v" "v \<le> 2 ^ 53 * u"
    unfolding u_def by (simp_all only: ulp_scale(1,2))
  with u have "2 ^ 52 \<le> v / u \<and> v / u \<le> 2 ^ 53"
    by (simp add: pos_le_divide_eq pos_divide_le_eq)
  then show ?thesis by (simp only: u_def)
qed

lemma roundDouble_on_binade:
  assumes "2 powi e \<le> v" and "v \<le> 2 powi (e + 1)"
  shows "roundDouble v = of_int (roundHalfEven (v / 2 powi (e - 52))) * 2 powi (e - 52)"
proof -
  have "(0::real) < 2 powi e" by simp
  with assms(1) have pos: "0 < v" by linarith
  show ?thesis
  proof (cases "v < 2 powi (e + 1)")
    case True
    with assms(1) have "binade v = e" by (rule binade_eqI)
    with pos show ?thesis by (simp add: roundDouble_pos)
  next
    case False
    with assms(2) have v: "v = 2 powi (e + 1)" by simp
    have "(2::real) powi (e + 1) < 2 powi (e + 1 + 1)"
      by (rule power_int_strict_increasing) simp_all
    then have b: "binade v = e + 1" unfolding v by (intro binade_eqI) simp_all
    have u1: "(0::real) < 2 powi (e + 1 - 52)" and u2: "(0::real) < 2 powi (e - 52)"
      by simp_all
    have "of_int (2 ^ 52) * 2 powi (e + 1 - 52) = v"
      unfolding v using ulp_scale(1) [of "e + 1"] by simp
    then have q1: "v / 2 powi (e + 1 - 52) = of_int (2 ^ 52)"
      using u1 by (simp add: field_simps)
    have "of_int (2 ^ 53) * 2 powi (e - 52) = v"
      unfolding v using ulp_scale(2) [of e] by simp
    then have q2: "v / 2 powi (e - 52) = of_int (2 ^ 53)"
      using u2 by (simp add: field_simps)
    have "roundDouble v = of_int (roundHalfEven (v / 2 powi (e + 1 - 52))) * 2 powi (e + 1 - 52)"
      using roundDouble_pos [OF pos] by (simp only: b)
    also have "\<dots> = (v / 2 powi (e + 1 - 52)) * 2 powi (e + 1 - 52)"
      by (simp only: q1 roundHalfEven_of_int)
    also have "\<dots> = v" using u1 by simp
    also have "\<dots> = (v / 2 powi (e - 52)) * 2 powi (e - 52)" using u2 by simp
    also have "\<dots> = of_int (roundHalfEven (v / 2 powi (e - 52))) * 2 powi (e - 52)"
      by (simp only: q2 roundHalfEven_of_int)
    finally show ?thesis .
  qed
qed

lemma roundDouble_in_binade:
  assumes "2 powi e \<le> v" and "v \<le> 2 powi (e + 1)"
  shows "2 powi e \<le> roundDouble v \<and> roundDouble v \<le> 2 powi (e + 1)"
proof -
  from scaled_in_binade [OF assms]
  have q: "of_int (2 ^ 52) \<le> v / 2 powi (e - 52)" "v / 2 powi (e - 52) \<le> of_int (2 ^ 53)"
    by simp_all
  from roundHalfEven_mono [OF q(1)] roundHalfEven_mono [OF q(2)]
  have r: "2 ^ 52 \<le> roundHalfEven (v / 2 powi (e - 52))"
    "roundHalfEven (v / 2 powi (e - 52)) \<le> 2 ^ 53"
    by (simp_all only: roundHalfEven_of_int)
  then have r': "(2::real) ^ 52 \<le> of_int (roundHalfEven (v / 2 powi (e - 52)))"
    "of_int (roundHalfEven (v / 2 powi (e - 52))) \<le> (2::real) ^ 53"
    by (metis of_int_le_iff of_int_numeral of_int_power)+
  note lo = ulp_scale(1) [of e] and hi = ulp_scale(2) [of e]
  have u: "(0::real) \<le> 2 powi (e - 52)" by simp
  show ?thesis
    unfolding roundDouble_on_binade [OF assms] lo [symmetric] hi [symmetric]
    using r' u by (simp add: mult_right_mono)
qed

lemma in_own_binade: "0 < v \<Longrightarrow> 2 powi (binade v) \<le> v \<and> v \<le> 2 powi (binade v + 1)"
  using binade_bounds [of v] by simp

lemma roundDouble_mono_pos:
  assumes "0 < v" and "v \<le> w"
  shows "roundDouble v \<le> roundDouble w"
proof -
  from assms have w: "0 < w" by simp
  note bv = in_own_binade [OF assms(1)] and bw = in_own_binade [OF w]
  have le: "binade v \<le> binade w"
  proof (rule ccontr)
    assume "\<not> binade v \<le> binade w"
    then have "binade w + 1 \<le> binade v" by simp
    then have "(2::real) powi (binade w + 1) \<le> 2 powi (binade v)"
      by (rule power_int_increasing) simp
    with bv assms(2) binade_bounds [OF w] show False by linarith
  qed
  show ?thesis
  proof (cases "binade v = binade w")
    case True
    have "v / 2 powi (binade w - 52) \<le> w / 2 powi (binade w - 52)"
      using assms(2) by (simp add: divide_right_mono)
    then have "roundHalfEven (v / 2 powi (binade w - 52)) \<le>
        roundHalfEven (w / 2 powi (binade w - 52))" by (rule roundHalfEven_mono)
    then show ?thesis
      using assms(1) w by (simp add: roundDouble_pos True mult_right_mono)
  next
    case False
    with le have "binade v + 1 \<le> binade w" by simp
    then have "(2::real) powi (binade v + 1) \<le> 2 powi (binade w)"
      by (rule power_int_increasing) simp
    with roundDouble_in_binade [of "binade v" v] roundDouble_in_binade [of "binade w" w] bv bw
    show ?thesis by linarith
  qed
qed

lemma roundDouble_nonneg: "0 \<le> v \<Longrightarrow> 0 \<le> roundDouble v"
proof (cases "v = 0")
  case True
  then show ?thesis by simp
next
  case False
  assume "0 \<le> v"
  with False have pos: "0 < v" by simp
  from roundDouble_in_binade [of "binade v" v] in_own_binade [OF pos]
  have "2 powi (binade v) \<le> roundDouble v" by simp
  moreover have "(0::real) < 2 powi (binade v)" by simp
  ultimately show ?thesis by linarith
qed

lemma roundDouble_mono:
  assumes "0 \<le> v" and "v \<le> w"
  shows "roundDouble v \<le> roundDouble w"
proof (cases "v = 0")
  case True
  with assms roundDouble_nonneg [of w] show ?thesis by simp
next
  case False
  with assms(1) have "0 < v" by simp
  then show ?thesis using assms(2) by (rule roundDouble_mono_pos)
qed

lemma roundDouble_error:
  assumes "0 \<le> v"
  shows "\<bar>roundDouble v - v\<bar> \<le> v / 2 ^ 53"
proof (cases "v = 0")
  case True
  then show ?thesis by simp
next
  case False
  with assms have pos: "0 < v" by simp
  define u :: real where "u = 2 powi (binade v - 52)"
  define r :: real where "r = of_int (roundHalfEven (v / u))"
  have u: "0 < u" by (simp add: u_def)
  have rd: "roundDouble v = r * u" using pos by (simp add: roundDouble_pos u_def r_def)
  from in_own_binade [OF pos] have ule: "2 ^ 52 * u \<le> v"
    unfolding u_def ulp_scale(1) by simp
  have "\<bar>r - v / u\<bar> \<le> 1 / 2" unfolding r_def by (rule roundHalfEven_near)
  then have "\<bar>r - v / u\<bar> * u \<le> 1 / 2 * u" using u by (simp add: mult_right_mono)
  moreover have eq: "(r - v / u) * u = r * u - v" using u by (simp add: field_simps)
  have "\<bar>r * u - v\<bar> = \<bar>r - v / u\<bar> * u"
    by (simp only: eq [symmetric] abs_mult abs_of_pos [OF u])
  ultimately have "\<bar>r * u - v\<bar> \<le> u / 2" by simp
  with ule show ?thesis unfolding rd by (simp add: field_simps)
qed

lemma roundDouble_exact:
  assumes "0 < m" and "m < 2 ^ 53"
  shows "roundDouble (of_int m * 2 powi j) = of_int m * 2 powi j"
proof -
  define v :: real where "v = of_int m * 2 powi j"
  have pos: "0 < v" using assms(1) by (simp add: v_def)
  define u :: real where "u = 2 powi (binade v - 52)"
  have u: "0 < u" by (simp add: u_def)
  note b = binade_bounds [OF pos]
  have "of_int m < (2::real) ^ 53" using assms(2)
    by (metis of_int_less_iff of_int_numeral of_int_power)
  then have "v < 2 ^ 53 * 2 powi j" by (simp add: v_def)
  also have "\<dots> = 2 powi (53 + j)" by (rule ulp_scale(3))
  finally have "(2::real) powi (binade v) < 2 powi (53 + j)" using b by linarith
  then have "binade v < 53 + j"
    using power_int_increasing [of "53 + j" "binade v" "2::real"]
    by (cases "binade v < 53 + j") auto
  then have d: "0 \<le> j - (binade v - 52)" by simp
  define d' where "d' = nat (j - (binade v - 52))"
  have "(2::real) powi j / u = 2 powi (j - (binade v - 52))"
    unfolding u_def by (rule power_int_diff [symmetric]) simp
  also have "\<dots> = 2 ^ d'" using d by (simp add: d'_def power_int_def)
  finally have pw: "(2::real) powi j / u = 2 ^ d'" .
  have "v / u = of_int m * (2 powi j / u)" by (simp add: v_def)
  also have "\<dots> = of_int (m * 2 ^ d')" unfolding pw by simp
  finally have q: "v / u = of_int (m * 2 ^ d')" .
  have "roundDouble v = of_int (roundHalfEven (v / u)) * u"
    using roundDouble_pos [OF pos] by (simp only: u_def)
  also have "\<dots> = (v / u) * u" by (simp only: q roundHalfEven_of_int)
  also have "\<dots> = v" using u by simp
  finally show ?thesis by (simp only: v_def)
qed

lemma roundDouble_of_int:
  assumes "0 \<le> m" and "m < 2 ^ 53"
  shows "roundDouble (of_int m) = of_int m"
proof (cases "m = 0")
  case True
  then show ?thesis by simp
next
  case False
  with assms(1) have "0 < m" by simp
  from roundDouble_exact [OF this assms(2), of 0] show ?thesis by simp
qed

lemma roundDouble_eqI:
  assumes "2 powi e \<le> v" and "v \<le> 2 powi (e + 1)"
    and "of_int (roundHalfEven (v / 2 powi (e - 52))) * 2 powi (e - 52) = r"
  shows "roundDouble v = r"
  using roundDouble_on_binade [OF assms(1,2)] assms(3) by simp

lemma roundDouble_0_2: "roundDouble 0.2 = 3602879701896397 / 2 ^ 54"
  by (rule roundDouble_eqI [where e = "- 3"]) (simp_all add: power_int_minus roundHalfEven_def)

lemma roundDouble_fifth: "roundDouble (1 / 5) = 3602879701896397 / 2 ^ 54"
  using roundDouble_0_2 by simp

lemma roundDouble_one [simp]: "roundDouble 1 = 1"
  using roundDouble_of_int [of 1] by simp

section \<open>Facts about the difficulty multiplier\<close>

lemma times_0_2_nonneg: "0 \<le> n \<Longrightarrow> 0 \<le> of_int n * roundDouble 0.2"
  by (simp add: roundDouble_fifth)

lemma getDifficultyMultiplier_mono:
  assumes "0 \<le> s" and "s \<le> t"
  shows "getDifficultyMultiplier s \<le> getDifficultyMultiplier t"
proof -
  have q: "roundDouble (s / 100) \<le> roundDouble (t / 100)"
    using assms by (intro roundDouble_mono) simp_all
  have "0 \<le> roundDouble (s / 100)" using assms(1) by (intro roundDouble_nonneg) simp
  then have n0: "0 \<le> \<lfloor>roundDouble (s / 100)\<rfloor>" by simp
  from q have n: "\<lfloor>roundDouble (s / 100)\<rfloor> \<le> \<lfloor>roundDouble (t / 100)\<rfloor>" by (rule floor_mono)
  then have "of_int \<lfloor>roundDouble (s / 100)\<rfloor> * roundDouble 0.2 \<le>
      of_int \<lfloor>roundDouble (t / 100)\<rfloor> * roundDouble 0.2"
    by (simp add: roundDouble_fifth)
  with times_0_2_nonneg [OF n0]
  have p: "roundDouble (of_int \<lfloor>roundDouble (s / 100)\<rfloor> * roundDouble 0.2) \<le>
      roundDouble (of_int \<lfloor>roundDouble (t / 100)\<rfloor> * roundDouble 0.2)"
    by (intro roundDouble_mono)
  have "0 \<le> roundDouble (of_int \<lfloor>roundDouble (s / 100)\<rfloor> * roundDouble 0.2)"
    using times_0_2_nonneg [OF n0] by (rule roundDouble_nonneg)
  with p show ?thesis
    unfolding getDifficultyMultiplier_def by (intro roundDouble_mono) simp_all
qed

lemma floor_hundreds:
  assumes "0 \<le> k" and "k < 2 ^ 45" and "100 * of_int k \<le> s" and "s \<le> 100 * of_int k + 99"
  shows "\<lfloor>roundDouble (s / 100)\<rfloor> = k"
proof -
  have k53: "k < 2 ^ 53" using assms(2) by simp
  have "roundDouble (of_int k) \<le> roundDouble (s / 100)"
    using assms(1,3) by (intro roundDouble_mono) simp_all
  then have lo: "of_int k \<le> roundDouble (s / 100)"
    using roundDouble_of_int [OF assms(1) k53] by simp
  have m: "0 < 128 * k + 127" "128 * k + 127 < 2 ^ 53" using assms(1,2) by simp_all
  have d: "of_int (128 * k + 127) * 2 powi (- 7) = of_int k + (127 / 128 :: real)"
    by (simp add: power_int_minus field_simps)
  have "(0::real) \<le> 100 * of_int k" using assms(1) by simp
  with assms(3) have "0 \<le> s / 100" by simp
  moreover have "s / 100 \<le> of_int k + 127 / 128" using assms(4) by simp
  ultimately have "roundDouble (s / 100) \<le> roundDouble (of_int k + 127 / 128)"
    by (rule roundDouble_mono)
  also have "\<dots> = of_int k + 127 / 128"
    using roundDouble_exact [OF m, of "- 7"] unfolding d .
  finally have hi: "roundDouble (s / 100) < of_int k + 1" by simp
  from lo hi show ?thesis by (simp add: floor_unique)
qed

lemma getDifficultyMultiplier_hundreds:
  assumes "0 \<le> k" and "k < 2 ^ 45" and "100 * of_int k \<le> s" and "s \<le> 100 * of_int k + 99"
  shows "getDifficultyMultiplier s = roundDouble (1 + roundDouble (of_int k * roundDouble 0.2))"
  by (simp only: getDifficultyMultiplier_def floor_hundreds [OF assms])

lemma getDifficultyMultiplier_first_hundred:
  "0 \<le> s \<Longrightarrow> s \<le> 99 \<Longrightarrow> getDifficultyMultiplier s = 1"
  using getDifficultyMultiplier_hundreds [of 0 s] by simp

lemma step_estimate:
  assumes "0 \<le> k"
  defines "F \<equiv> \<lambda>n. roundDouble (1 + roundDouble (of_int n * roundDouble 0.2))"
  shows "\<bar>F (k + 1) - F k - 0.2\<bar> \<le> (of_int k + 3) / 2 ^ 53"
proof -
  define c :: real where "c = 3602879701896397 / 2 ^ 54"
  define p where "p = roundDouble (of_int k * c)"
  define p' where "p' = roundDouble (of_int (k + 1) * c)"
  have k: "(0::real) \<le> of_int k" using assms(1) by simp
  have kc: "0 \<le> of_int k * c" "0 \<le> of_int (k + 1) * c" using assms(1) by (simp_all add: c_def)
  have ep: "\<bar>p - of_int k * c\<bar> \<le> of_int k * c / 2 ^ 53"
    unfolding p_def using kc(1) by (rule roundDouble_error)
  have ep': "\<bar>p' - of_int (k + 1) * c\<bar> \<le> of_int (k + 1) * c / 2 ^ 53"
    unfolding p'_def using kc(2) by (rule roundDouble_error)
  have p0: "0 \<le> p" "0 \<le> p'" unfolding p_def p'_def using kc by (simp_all add: roundDouble_nonneg)
  have ef: "\<bar>roundDouble (1 + p) - (1 + p)\<bar> \<le> (1 + p) / 2 ^ 53"
    using p0(1) by (intro roundDouble_error) simp
  have ef': "\<bar>roundDouble (1 + p') - (1 + p')\<bar> \<le> (1 + p') / 2 ^ 53"
    using p0(2) by (intro roundDouble_error) simp
  have F: "F k = roundDouble (1 + p)" "F (k + 1) = roundDouble (1 + p')"
    by (simp_all only: F_def p_def p'_def roundDouble_0_2 c_def)
  define f where "f = roundDouble (1 + p)"
  define f' where "f' = roundDouble (1 + p')"
  define K :: real where "K = of_int k"
  have D: "(2::real) ^ 53 = 9007199254740992" by simp
  have c: "c = 3602879701896397 / 18014398509481984" by (simp add: c_def)
  have K1: "real_of_int (k + 1) = K + 1" by (simp add: K_def)
  note ep = ep [folded K_def, unfolded D] and ep' = ep' [unfolded K1 D]
    and ef = ef [folded f_def, unfolded D] and ef' = ef' [folded f'_def, unfolded D]
  note b = abs_le_D1 [OF ep] abs_le_D2 [OF ep] abs_le_D1 [OF ep'] abs_le_D2 [OF ep']
    abs_le_D1 [OF ef] abs_le_D2 [OF ef] abs_le_D1 [OF ef'] abs_le_D2 [OF ef']
  have K: "0 \<le> K" using k by (simp add: K_def)
  have "f' - f - 2 / 10 \<le> (K + 3) / 9007199254740992"
    using b K unfolding c by argo
  moreover have "- (f' - f - 2 / 10) \<le> (K + 3) / 9007199254740992"
    using b K unfolding c by argo
  ultimately have "\<bar>f' - f - 2 / 10\<bar> \<le> (K + 3) / 9007199254740992"
    by (rule abs_leI)
  then show ?thesis
    unfolding F f_def [symmetric] f'_def [symmetric] K_def D by simp
qed

lemma multiplier_at_200:
  "roundDouble (1 + roundDouble (of_int 2 * roundDouble 0.2)) = 6305039478318694 / 2 ^ 52"
proof -
  have p: "roundDouble (of_int 2 * (3602879701896397 / 2 ^ 54)) = 3602879701896397 / 2 ^ 53"
    by (rule roundDouble_eqI [where e = "- 2"]) (simp_all add: power_int_minus roundHalfEven_def)
  have f: "roundDouble (1 + 3602879701896397 / 2 ^ 53) = 6305039478318694 / 2 ^ 52"
    by (rule roundDouble_eqI [where e = 0]) (simp_all add: power_int_minus roundHalfEven_def)
  show ?thesis by (simp only: roundDouble_0_2 p f)
qed

lemma multiplier_at_300:
  "roundDouble (1 + roundDouble (of_int 3 * roundDouble 0.2)) = 7205759403792794 / 2 ^ 52"
proof -
  have p: "roundDouble (of_int 3 * (3602879701896397 / 2 ^ 54)) = 5404319552844596 / 2 ^ 53"
    by (rule roundDouble_eqI [where e = "- 1"]) (simp_all add: power_int_minus roundHalfEven_def)
  have f: "roundDouble (1 + 5404319552844596 / 2 ^ 53) = 7205759403792794 / 2 ^ 52"
    by (rule roundDouble_eqI [where e = 0]) (simp_all add: power_int_minus roundHalfEven_def)
  show ?thesis by (simp only: roundDouble_0_2 p f)
qed

lemma multiplier_at_700:
  "roundDouble (1 + roundDouble (of_int 7 * roundDouble 0.2)) = 5404319552844596 / 2 ^ 51"
proof -
  have p: "roundDouble (of_int 7 * (3602879701896397 / 2 ^ 54)) = 6305039478318695 / 2 ^ 52"
    by (rule roundDouble_eqI [where e = 0]) (simp_all add: power_int_minus roundHalfEven_def)
  have f: "roundDouble (1 + 6305039478318695 / 2 ^ 52) = 5404319552844596 / 2 ^ 51"
    by (rule roundDouble_eqI [where e = 1]) (simp_all add: power_int_minus roundHalfEven_def)
  show ?thesis by (simp only: roundDouble_0_2 p f)
qed

lemma getDifficultyMultiplier_700: "getDifficultyMultiplier 700 = 5404319552844596 / 2 ^ 51"
  using getDifficultyMultiplier_hundreds [of 7 700] by (simp only: multiplier_at_700) simp

lemma getDifficultyMultiplier_250: "getDifficultyMultiplier 250 = 6305039478318694 / 2 ^ 52"
  using getDifficultyMultiplier_hundreds [of 2 250] by (simp only: multiplier_at_200) simp

lemma getDifficultyMultiplier_300: "getDifficultyMultiplier 300 = 7205759403792794 / 2 ^ 52"
  using getDifficultyMultiplier_hundreds [of 3 300] by (simp only: multiplier_at_300) simp

lemma sum_250_plus_0_2:
  "roundDouble (6305039478318694 / 2 ^ 52 + roundDouble 0.2) = 7205759403792793 / 2 ^ 52"
proof -
  have "roundDouble (6305039478318694 / 2 ^ 52 + 3602879701896397 / 2 ^ 54) =
      7205759403792793 / 2 ^ 52"
    by (rule roundDouble_eqI [where e = 0]) (simp_all add: power_int_minus roundHalfEven_def)
  then show ?thesis by (simp only: roundDouble_0_2)
qed

section \<open>Facts about collision resolution\<close>

lemma filterCollected_fst:
  "fst (filterCollected p cs a) = filter (\<lambda>c. \<not> hasCollided p c) cs"
  by (induction cs arbitrary: a) (auto simp: case_prod_beta)

lemma collect_simps:
  "newScore (collect p c a) = newScore a + updateScore (ctype c) (hasDoublePoints p)"
  "timeBonus (collect p c a) = timeBonus a + TIME_BONUS (ctype c)"
  "locInvincible (collect p c a) = (locInvincible a \<or> ctype c = diamondHands)"
  "locDoublePoints (collect p c a) = (locDoublePoints a \<or> ctype c = moonRocket)"
  by (auto simp: collect_def Let_def split: CollectibleType.splits)

lemma filterCollected_newScore:
  "newScore (snd (filterCollected p cs a)) =
     newScore a + (\<Sum>c\<leftarrow>filter (hasCollided p) cs. updateScore (ctype c) (hasDoublePoints p))"
  by (induction cs arbitrary: a) (auto simp: case_prod_beta collect_simps)

lemma filterCollected_timeBonus:
  "timeBonus (snd (filterCollected p cs a)) =
     timeBonus a + (\<Sum>c\<leftarrow>filter (hasCollided p) cs. TIME_BONUS (ctype c))"
  by (induction cs arbitrary: a) (auto simp: case_prod_beta collect_simps)

lemma filterCollected_locInvincible:
  "locInvincible (snd (filterCollected p cs a)) \<longleftrightarrow>
     locInvincible a \<or> (\<exists>c\<in>set cs. hasCollided p c \<and> ctype c = diamondHands)"
  by (induction cs arbitrary: a) (auto simp: case_prod_beta collect_simps)

lemma filterCollected_locDoublePoints:
  "locDoublePoints (snd (filterCollected p cs a)) \<longleftrightarrow>
     locDoublePoints a \<or> (\<exists>c\<in>set cs. hasCollided p c \<and> ctype c = moonRocket)"
  by (induction cs arbitrary: a) (auto simp: case_prod_beta collect_simps)

lemma checkCollisions_fst:
  "fst (checkCollisions st) =
     st\<lparr> player := (player st)\<lparr>
            isInvincible := (isInvincible (player st) \<or>
               (\<exists>c\<in>set (collectibles st). hasCollided (player st) c \<and> ctype c = diamondHands)),
            hasDoublePoints := (hasDoublePoints (player st) \<or>
               (\<exists>c\<in>set (collectibles st). hasCollided (player st) c \<and> ctype c = moonRocket)) \<rparr>,
          collectibles := filter (\<lambda>c. \<not> hasCollided (player st) c) (collectibles st),
          score := score st +
            (\<Sum>c\<leftarrow>filter (hasCollided (player st)) (collectibles st).
               updateScore (ctype c) (hasDoublePoints (player st))),
          timeLeft := timeLeft st +
            (\<Sum>c\<leftarrow>filter (hasCollided (player st)) (collectibles st). TIME_BONUS (ctype c)),
          isGameOver :=
            ((\<exists>ob\<in>set (obstacles st). hasCollided (player st) ob) \<and>
             \<not> (isInvincible (player st) \<or>
               (\<exists>c\<in>set (collectibles st). hasCollided (player st) c \<and> ctype c = diamondHands)))
            \<or> timeLeft st \<le> 0 \<rparr>"
  unfolding checkCollisions_def Let_def case_prod_beta fst_conv
  by (simp add: filterCollected_fst filterCollected_newScore filterCollected_timeBonus
      filterCollected_locInvincible filterCollected_locDoublePoints list_ex_iff)

lemma hasCollided_player_flags [simp]:
  "hasCollided (p\<lparr> isInvincible := a, hasDoublePoints := b \<rparr>) e = hasCollided p e"
  by (simp add: hasCollided_def)

lemma TIME_BONUS_nonneg: "0 \<le> TIME_BONUS k"
  by (cases k) simp_all

lemma updateScore_nonneg: "0 \<le> updateScore k b"
  by (cases k) (simp_all add: updateScore_def)

lemma checkCollisions_timeLeft_mono: "timeLeft st \<le> timeLeft (fst (checkCollisions st))"
  by (simp add: checkCollisions_fst) (rule sum_list_nonneg, auto simp: TIME_BONUS_nonneg)

lemma checkCollisions_score_mono: "score st \<le> score (fst (checkCollisions st))"
  by (simp add: checkCollisions_fst) (rule sum_list_nonneg, auto simp: updateScore_nonneg)

lemma sum_list_updateScore:
  "(\<Sum>c\<leftarrow>cs. updateScore (ctype c) b) =
   (if b then 2 else 1) * (\<Sum>c\<leftarrow>cs. SCORE_VALUES (ctype c))"
  by (induction cs) (simp_all add: updateScore_def algebra_simps)

section \<open>Facts about the tick\<close>

lemma newState_fields:
  "player (newState dt d prev) = integratePlayer (player prev)"
  "score (newState dt d prev) = score prev"
  "timeLeft (newState dt d prev) = timeLeft prev"
  "isPaused (newState dt d prev) = isPaused prev"
  by (simp_all add: newState_def Let_def)

lemma integratePlayer_fields:
  "x (integratePlayer p) = x p"
  "width (integratePlayer p) = width p"
  "height (integratePlayer p) = height p"
  "isInvincible (integratePlayer p) = isInvincible p"
  "hasDoublePoints (integratePlayer p) = hasDoublePoints p"
  by (simp_all add: integratePlayer_def Let_def)

lemma integratePlayer_y:
  "0 \<le> y (integratePlayer p) \<and> y (integratePlayer p) \<le> BASE_GAME_HEIGHT - PLAYER_SIZE"
  by (simp add: integratePlayer_def Let_def consts_defs)

lemma tick_playing:
  "\<not> isGameOver prev \<Longrightarrow> \<not> isPaused prev \<Longrightarrow>
   fst (gameLoopUpdate dt d prev) = fst (checkCollisions (newState dt d prev))"
  by (simp add: gameLoopUpdate_def)


lemma gameLoopUpdate_timeLeft_mono: "timeLeft prev \<le> timeLeft (fst (gameLoopUpdate dt d prev))"
  using checkCollisions_timeLeft_mono [of "newState dt d prev"]
  by (simp add: gameLoopUpdate_def newState_fields)

lemma gameLoopUpdate_score_mono: "score prev \<le> score (fst (gameLoopUpdate dt d prev))"
  using checkCollisions_score_mono [of "newState dt d prev"]
  by (simp add: gameLoopUpdate_def newState_fields)

lemma spawnCollectible_geometry:
  "0 \<le> u \<Longrightarrow> u < 1 \<Longrightarrow>
   x (spawnCollectible a b u) = 800 \<and> width (spawnCollectible a b u) = 40 \<and>
   height (spawnCollectible a b u) = 40 \<and>
   0 \<le> y (spawnCollectible a b u) \<and>
   y (spawnCollectible a b u) < BASE_GAME_HEIGHT - height (spawnCollectible a b u)"
  by (simp add: spawnCollectible_def consts_defs)

lemma spawnObstacle_geometry:
  "0 \<le> u \<Longrightarrow> u < 1 \<Longrightarrow>
   x (spawnObstacle a b u) = 800 \<and> width (spawnObstacle a b u) = 60 \<and>
   height (spawnObstacle a b u) = 60 \<and>
   0 \<le> y (spawnObstacle a b u) \<and> y (spawnObstacle a b u) < 560"
  by (simp add: spawnObstacle_def consts_defs)

lemma scroll_moves_left:
  "0 \<le> sc \<Longrightarrow> 0 < dt \<Longrightarrow>
   0 < speed_horizontal sc * (dt / 16) \<and> 0 < speed_obstacle sc * (dt / 16)"
proof -
  assume a: "0 \<le> sc" "0 < dt"
  have "getDifficultyMultiplier 0 \<le> getDifficultyMultiplier sc"
    using a(1) by (intro getDifficultyMultiplier_mono) simp_all
  then have "1 \<le> getDifficultyMultiplier sc"
    by (simp add: getDifficultyMultiplier_first_hundred)
  with a(2) show ?thesis
    by (simp add: speed_horizontal_def speed_obstacle_def consts_defs)
qed

lemma scrollCollectibles_culls_at_own_width:
  "\<forall>c\<in>set cs. width c = PLAYER_SIZE \<Longrightarrow>
   scrollCollectibles m cs =
     map (\<lambda>c. c\<lparr> x := x c - m \<rparr>) (filter (\<lambda>c. \<not> x c \<le> - width c) cs)"
  unfolding scrollCollectibles_def
  by (rule arg_cong [where f = "map _"], rule filter_cong) auto

lemma scrollObstacles_culls_at_player_size:
  "scrollObstacles m os =
     map (\<lambda>ob. ob\<lparr> x := x ob - m \<rparr>) (filter (\<lambda>ob. \<not> x ob \<le> - 40) os)"
  unfolding scrollObstacles_def
  by (rule arg_cong [where f = "map _"], rule filter_cong) (auto simp: consts_defs)

section \<open>Facts about the drivers\<close>

lemma gameLoop_session:
  "session (gameLoop ts d w) = session w \<or>
   (\<exists>dt. session (gameLoop ts d w) = fst (gameLoopUpdate dt d (session w)))"
  by (auto simp: gameLoop_def Let_def case_prod_beta)

lemma expiryCallback_frame:
  "score (expiryCallback e s) = score s"
  "timeLeft (expiryCallback e s) = timeLeft s"
  "collectibles (expiryCallback e s) = collectibles s"
  "obstacles (expiryCallback e s) = obstacles s"
  "isGameOver (expiryCallback e s) = isGameOver s"
  "isPaused (expiryCallback e s) = isPaused s"
  by (cases e; simp)+

lemma runDue_frame:
  "score (runDue now ts s) = score s \<and> timeLeft (runDue now ts s) = timeLeft s \<and>
   collectibles (runDue now ts s) = collectibles s \<and> obstacles (runDue now ts s) = obstacles s \<and>
   isGameOver (runDue now ts s) = isGameOver s \<and> isPaused (runDue now ts s) = isPaused s"
  by (induction now ts s rule: runDue.induct) (simp_all add: expiryCallback_frame)

lemma step_timeLeft_nonneg:
  assumes a: "0 \<le> timeLeft (session w)"
  shows "0 \<le> timeLeft (session (step e w))"
proof (cases e)
  case (Frame ts d)
  from gameLoop_session [of ts d w] show ?thesis
  proof
    assume "session (gameLoop ts d w) = session w"
    with a Frame show ?thesis by simp
  next
    assume "\<exists>dt. session (gameLoop ts d w) = fst (gameLoopUpdate dt d (session w))"
    then obtain dt where "session (gameLoop ts d w) = fst (gameLoopUpdate dt d (session w))" ..
    with a Frame gameLoopUpdate_timeLeft_mono [of "session w" dt d] show ?thesis by simp
  qed
next
  case TimerSecond
  with a show ?thesis by (simp add: timerEffect_def timerCallback_def)
next
  case Jump
  with a show ?thesis by (simp add: handleInteraction_def)
next
  case (Timeouts now)
  with a show ?thesis by (simp add: fireTimeouts_def runDue_frame)
next
  case Restart
  then show ?thesis by (simp add: restartGame_def consts_defs)
qed

lemma step_score_mono:
  assumes ne: "e \<noteq> Restart"
  shows "score (session w) \<le> score (session (step e w))"
proof (cases e)
  case (Frame ts d)
  from gameLoop_session [of ts d w] show ?thesis
  proof
    assume "session (gameLoop ts d w) = session w"
    with Frame show ?thesis by simp
  next
    assume "\<exists>dt. session (gameLoop ts d w) = fst (gameLoopUpdate dt d (session w))"
    then obtain dt where "session (gameLoop ts d w) = fst (gameLoopUpdate dt d (session w))" ..
    with Frame gameLoopUpdate_score_mono [of "session w" dt d] show ?thesis by simp
  qed
next
  case TimerSecond
  then show ?thesis by (simp add: timerEffect_def timerCallback_def)
next
  case Jump
  then show ?thesis by (simp add: handleInteraction_def)
next
  case (Timeouts now)
  then show ?thesis by (simp add: fireTimeouts_def runDue_frame)
next
  case Restart
  with ne show ?thesis by simp
qed

lemma run_timeLeft_nonneg:
  "0 \<le> timeLeft (session w) \<Longrightarrow> 0 \<le> timeLeft (session (run es w))"
  by (induction es arbitrary: w) (simp_all add: step_timeLeft_nonneg)

lemma run_score_mono:
  "Restart \<notin> set es \<Longrightarrow> score (session w) \<le> score (session (run es w))"
proof (induction es arbitrary: w)
  case Nil
  then show ?case by simp
next
  case (Cons e es)
  from Cons.prems have "e \<noteq> Restart" and rest: "Restart \<notin> set es" by auto
  then have "score (session w) \<le> score (session (step e w))"
    by (simp add: step_score_mono)
  also from rest have "\<dots> \<le> score (session (run es (step e w)))" by (rule Cons.IH)
  finally show ?case by simp
qed

lemma run_append: "run (es @ fs) w = run fs (run es w)"
  by (induction es arbitrary: w) simp_all

lemma runDue_velocity: "velocity (player (runDue now ts s)) = velocity (player s)"
proof (induction now ts s rule: runDue.induct)
  case (1 now s)
  then show ?case by simp
next
  case (2 now due e ts s)
  then show ?case by (cases e) simp_all
qed

lemma gameLoop_idle:
  "isGameOver (session w) \<or> isPaused (session w) \<Longrightarrow>
   session (gameLoop ts d w) = session w \<and> pending (gameLoop ts d w) = pending w"
  by (simp add: gameLoop_def Let_def gameLoopUpdate_def)

lemma expiryCallback_noop:
  "(expiryCallback ClearDoublePoints s = s) = (\<not> hasDoublePoints (player s))"
  "(expiryCallback ClearInvincible s = s) = (\<not> isInvincible (player s))"
proof -
  show "(expiryCallback ClearDoublePoints s = s) = (\<not> hasDoublePoints (player s))"
  proof
    assume "expiryCallback ClearDoublePoints s = s"
    then have "hasDoublePoints (player (expiryCallback ClearDoublePoints s)) =
      hasDoublePoints (player s)" by simp
    then show "\<not> hasDoublePoints (player s)" by simp
  next
    assume "\<not> hasDoublePoints (player s)"
    then show "expiryCallback ClearDoublePoints s = s" by simp
  qed
  show "(expiryCallback ClearInvincible s = s) = (\<not> isInvincible (player s))"
  proof
    assume "expiryCallback ClearInvincible s = s"
    then have "isInvincible (player (expiryCallback ClearInvincible s)) =
      isInvincible (player s)" by simp
    then show "\<not> isInvincible (player s)" by simp
  next
    assume "\<not> isInvincible (player s)"
    then show "expiryCallback ClearInvincible s = s" by simp
  qed
qed

lemma runDue_noop:
  "\<not> hasDoublePoints (player s) \<Longrightarrow> \<not> isInvincible (player s) \<Longrightarrow> runDue now ts s = s"
proof (induction now ts s rule: runDue.induct)
  case (1 now s)
  then show ?case by simp
next
  case (2 now due e ts s)
  then have "expiryCallback e s = s" by (cases e) (simp_all add: expiryCallback_noop)
  with 2 show ?case by simp
qed

lemma runDue_flags_only_cleared:
  "(hasDoublePoints (player (runDue now ts s)) \<longrightarrow> hasDoublePoints (player s)) \<and>
   (isInvincible (player (runDue now ts s)) \<longrightarrow> isInvincible (player s))"
proof (induction now ts s rule: runDue.induct)
  case (1 now s)
  then show ?case by simp
next
  case (2 now due e ts s)
  then show ?case by (cases e) (auto split: if_splits)
qed

lemma runDue_clears:
  "(due, e) \<in> set ts \<Longrightarrow> due \<le> now \<Longrightarrow>
   (e = ClearDoublePoints \<longrightarrow> \<not> hasDoublePoints (player (runDue now ts s))) \<and>
   (e = ClearInvincible \<longrightarrow> \<not> isInvincible (player (runDue now ts s)))"
proof (induction now ts s rule: runDue.induct)
  case (1 now s)
  then show ?case by simp
next
  case (2 now due' e' ts s)
  show ?case
  proof (cases "(due, e) = (due', e')")
    case True
    with 2(3,4) runDue_flags_only_cleared [of now ts "expiryCallback e s"]
    show ?thesis by (cases e) auto
  next
    case False
    with 2 show ?thesis by (auto split: if_splits)
  qed
qed

lemma runDue_shape:
  "runDue now ts s =
     s\<lparr> player := (player s)\<lparr>
          isInvincible := isInvincible (player (runDue now ts s)),
          hasDoublePoints := hasDoublePoints (player (runDue now ts s)) \<rparr> \<rparr>"
proof (induction now ts s rule: runDue.induct)
  case (1 now s)
  then show ?case by simp
next
  case (2 now due e ts s)
  show ?case
  proof (cases "due \<le> now")
    case True
    with 2(1) have "runDue now ((due, e) # ts) s =
      (expiryCallback e s)\<lparr> player := (player (expiryCallback e s))\<lparr>
          isInvincible := isInvincible (player (runDue now ((due, e) # ts) s)),
          hasDoublePoints := hasDoublePoints (player (runDue now ((due, e) # ts) s)) \<rparr> \<rparr>"
      by simp
    then show ?thesis by (cases e) simp_all
  next
    case False
    with 2(2) show ?thesis by simp
  qed
qed

section \<open>The tick on the concrete sessions\<close>

lemma doublePickup_moved:
  "newState 17 noSpawn doublePickup =
     doublePickup\<lparr> player := initialPlayer\<lparr> y := 300.3, velocity := 0.3 \<rparr>,
       collectibles :=
         [mkCollectible token (110 - 51 / 16) 300, mkCollectible token (500 - 51 / 16) 300,
          mkCollectible diamondHands (120 - 51 / 16) 310] \<rparr>"
  by (simp add: newState_def Let_def doublePickup_def initialGameState_def noSpawn_def
      spawnRate_collectible_def spawnRate_obstacle_def speed_horizontal_def
      speed_obstacle_def getDifficultyMultiplier_first_hundred scrollCollectibles_def
      scrollObstacles_def integratePlayer_def initialPlayer_def mkCollectible_def
      consts_defs)

lemma rocketThenToken_moved:
  "newState 17 noSpawn rocketThenToken =
     rocketThenToken\<lparr> player := initialPlayer\<lparr> y := 300.3, velocity := 0.3 \<rparr>,
       collectibles :=
         [mkCollectible moonRocket (110 - 51 / 16) 300,
          mkCollectible token (120 - 51 / 16) 310] \<rparr>"
  by (simp add: newState_def Let_def rocketThenToken_def initialGameState_def noSpawn_def
      spawnRate_collectible_def spawnRate_obstacle_def speed_horizontal_def
      speed_obstacle_def getDifficultyMultiplier_first_hundred scrollCollectibles_def
      scrollObstacles_def integratePlayer_def initialPlayer_def mkCollectible_def
      consts_defs)

lemmas eval_defs =
  newState_def Let_def noSpawn_def spawnRocket_def spawnRock_def
  spawnRate_collectible_def spawnRate_obstacle_def speed_horizontal_def
  speed_obstacle_def getDifficultyMultiplier_first_hundred scrollCollectibles_def
  scrollObstacles_def integratePlayer_def initialPlayer_def mkCollectible_def
  mkObstacle_def consts_defs gameLoopUpdate_def checkCollisions_def hasCollided_def
  collect_def updateScore_def gameLoop_def timerEffect_def timerCallback_def
  fireTimeouts_def restartGame_def initialWorld_def initialGameState_def
  spawnCollectible_def spawnObstacle_def pickCollectibleType_def pickObstacleType_def
  handleInteraction_def

lemma firstGame_result:
  "run firstGame initialWorld =
     \<lparr> session = \<lparr> player = initialPlayer\<lparr> y := 303, velocity := 1.2, hasDoublePoints := True \<rparr>,
                   collectibles = [],
                   obstacles = [\<lparr> x = 135, y = 280, width = 60, height = 60,
                                  rotation = Some 180, otype = marketDump \<rparr>],
                   score = 15, timeLeft = 32,
                   isGameOver = True, isPaused = False \<rparr>,
       lastTime = 4677,
       pending = [(9617, ClearDoublePoints)] \<rparr>"
  by (simp add: firstGame_def eval_defs)

lemma secondGame_result:
  "run (firstGame @ secondGame) initialWorld =
     \<lparr> session = \<lparr> player = initialPlayer\<lparr> y := 300.9, velocity := 0.6, hasDoublePoints := True \<rparr>,
                   collectibles = [], obstacles = [], score = 15, timeLeft = 32,
                   isGameOver = False, isPaused = False \<rparr>,
       lastTime = 9600,
       pending = [(9617, ClearDoublePoints), (14600, ClearDoublePoints)] \<rparr>"
  unfolding run_append firstGame_result
  by (simp add: secondGame_def eval_defs)

section \<open>The claims\<close>

subsection \<open>C1: when a tick ends the session\<close>

text \<open>
  Claim C1. After every evaluated tick in the Playing state, \<open>isGameOver\<close> is true if
  and only if the player's bounding box overlaps some obstacle's bounding box and the
  player is not invincible, or the pre-tick \<open>timeLeft\<close> is at most 0. Invincibility
  counts when it was armed by a \<open>diamondHands\<close> collected in that same tick: with time
  left, such a pickup leaves \<open>isGameOver\<close> false whatever the obstacles.
\<close>

theorem game_over_iff_unshielded_hit_or_time_up:
  fixes dt :: real and d :: Draws and prev :: GameState
  assumes "\<not> isGameOver prev" and "\<not> isPaused prev"
  shows
    "(let moved = newState dt d prev;
          s' = fst (gameLoopUpdate dt d prev);
          shield = (\<exists>c\<in>set (collectibles moved).
                      hasCollided (player moved) c \<and> ctype c = diamondHands)
      in (isGameOver s' \<longleftrightarrow>
            ((\<exists>ob\<in>set (obstacles s'). hasCollided (player s') ob) \<and> \<not> isInvincible (player s'))
            \<or> timeLeft prev \<le> 0) \<and>
         (isInvincible (player s') \<longleftrightarrow> isInvincible (player prev) \<or> shield) \<and>
         (shield \<and> 0 < timeLeft prev \<longrightarrow> \<not> isGameOver s'))"
  unfolding Let_def tick_playing [OF assms]
  by (auto simp add: checkCollisions_fst newState_fields integratePlayer_fields)

theorem game_over_iff_unshielded_hit_or_time_up_witness:
  "\<not> isGameOver shieldedCrash \<and> \<not> isPaused shieldedCrash \<and>
   (\<exists>ob\<in>set (obstacles (fst (gameLoopUpdate 17 noSpawn shieldedCrash))).
       hasCollided (player (fst (gameLoopUpdate 17 noSpawn shieldedCrash))) ob) \<and>
   isInvincible (player (fst (gameLoopUpdate 17 noSpawn shieldedCrash))) \<and>
   \<not> isGameOver (fst (gameLoopUpdate 17 noSpawn shieldedCrash))"
proof -
  have h: "\<not> isGameOver shieldedCrash" "\<not> isPaused shieldedCrash"
    by (simp_all add: shieldedCrash_def initialGameState_def)
  have moved: "newState 17 noSpawn shieldedCrash =
      shieldedCrash\<lparr> player := initialPlayer\<lparr> y := 300.3, velocity := 0.3 \<rparr>,
                     collectibles := [mkCollectible diamondHands (110 - 51 / 16) 300],
                     obstacles := [mkObstacle (120 - 17 / 4) 310] \<rparr>"
    by (simp add: newState_def Let_def shieldedCrash_def initialGameState_def noSpawn_def
        spawnRate_collectible_def spawnRate_obstacle_def speed_horizontal_def
        speed_obstacle_def getDifficultyMultiplier_first_hundred scrollCollectibles_def
        scrollObstacles_def integratePlayer_def initialPlayer_def mkCollectible_def
        mkObstacle_def consts_defs)
  have shield: "\<exists>c\<in>set (collectibles (newState 17 noSpawn shieldedCrash)).
      hasCollided (player (newState 17 noSpawn shieldedCrash)) c \<and> ctype c = diamondHands"
    unfolding moved
    by (simp add: hasCollided_def initialPlayer_def mkCollectible_def consts_defs)
  have hit: "\<exists>ob\<in>set (obstacles (newState 17 noSpawn shieldedCrash)).
      hasCollided (player (newState 17 noSpawn shieldedCrash)) ob"
    unfolding moved
    by (simp add: hasCollided_def initialPlayer_def mkObstacle_def consts_defs)
  have time: "0 < timeLeft shieldedCrash"
    by (simp add: shieldedCrash_def initialGameState_def consts_defs)
  have hit': "\<exists>ob\<in>set (obstacles (fst (gameLoopUpdate 17 noSpawn shieldedCrash))).
       hasCollided (player (fst (gameLoopUpdate 17 noSpawn shieldedCrash))) ob"
    using hit unfolding tick_playing [OF h] by (simp add: checkCollisions_fst)
  from game_over_iff_unshielded_hit_or_time_up [OF h, of 17 noSpawn] shield time hit' h
  show ?thesis by (simp add: Let_def)
qed

subsection \<open>C2: every overlapping collectible is collected\<close>

text \<open>
  Claim C2. In every tick, each collectible whose bounding box overlaps the player's is
  removed from the active set, adds its base score times 2 (with double points) or times 1
  to the score and its time bonus to \<open>timeLeft\<close>; all collectibles overlapping in the
  tick are honoured. A single token adds exactly 10, or exactly 20 with double points.
\<close>

theorem overlapping_collectibles_all_collected:
  fixes dt :: real and d :: Draws and prev :: GameState
  assumes "\<not> isGameOver prev" and "\<not> isPaused prev"
  shows
    "(let moved = newState dt d prev;
          s' = fst (gameLoopUpdate dt d prev);
          hit = filter (hasCollided (player moved)) (collectibles moved)
      in collectibles s' = filter (\<lambda>c. \<not> hasCollided (player moved) c) (collectibles moved) \<and>
         score s' = score prev +
           (\<Sum>c\<leftarrow>hit. SCORE_VALUES (ctype c) * (if hasDoublePoints (player prev) then 2 else 1)) \<and>
         timeLeft s' = timeLeft prev + (\<Sum>c\<leftarrow>hit. TIME_BONUS (ctype c)) \<and>
         (\<forall>c. hit = [c] \<and> ctype c = token \<longrightarrow>
            score s' = score prev + (if hasDoublePoints (player prev) then 20 else 10)))"
  unfolding Let_def tick_playing [OF assms]
  by (simp add: checkCollisions_fst newState_fields integratePlayer_fields updateScore_def)

theorem overlapping_collectibles_all_collected_witness:
  "\<not> isGameOver doublePickup \<and> \<not> isPaused doublePickup \<and>
   collectibles (fst (gameLoopUpdate 17 noSpawn doublePickup)) =
     [mkCollectible token (500 - 51 / 16) 300] \<and>
   score (fst (gameLoopUpdate 17 noSpawn doublePickup)) = 30 \<and>
   timeLeft (fst (gameLoopUpdate 17 noSpawn doublePickup)) = 35"
proof -
  have h: "\<not> isGameOver doublePickup" "\<not> isPaused doublePickup"
    by (simp_all add: doublePickup_def initialGameState_def)
  have pre: "score doublePickup = 0" "timeLeft doublePickup = 30"
    "\<not> hasDoublePoints (player doublePickup)"
    by (simp_all add: doublePickup_def initialGameState_def initialPlayer_def consts_defs)
  from overlapping_collectibles_all_collected [OF h, of 17 noSpawn] h pre show ?thesis
    unfolding Let_def doublePickup_moved
    by (simp add: hasCollided_def initialPlayer_def mkCollectible_def consts_defs)
qed

subsection \<open>C3: scrolling and culling\<close>

text \<open>
  Claim C3 says that on an active tick an entity is removed exactly when its pre-scroll
  \<open>x\<close> is at most minus its own size, 60 for an obstacle. The filter of the obstacles
  compares with \<^verbatim>\<open>-PLAYER_SIZE\<close>, the size of a collectible: an obstacle at
  \<open>x = -41.5\<close>, 60 wide and so still 18.5 units inside the playfield, is removed by the
  tick although \<open>-60 < x\<close>. (\<open>scroll_moves_left\<close>, \<open>scrollCollectibles_culls_at_own_width\<close>
  and \<open>scrollObstacles_culls_at_player_size\<close> give what holds in general.)
\<close>

theorem obstacle_culled_while_on_screen:
  "width lingeringObstacle = 60 \<and>
   - width lingeringObstacle < x lingeringObstacle \<and>
   0 < x lingeringObstacle + width lingeringObstacle \<and>
   \<not> isGameOver (initialGameState\<lparr> obstacles := [lingeringObstacle] \<rparr>) \<and>
   \<not> isPaused (initialGameState\<lparr> obstacles := [lingeringObstacle] \<rparr>) \<and>
   obstacles (fst (gameLoopUpdate 17 noSpawn (initialGameState\<lparr> obstacles := [lingeringObstacle] \<rparr>)))
     = []"
  by (simp add: lingeringObstacle_def eval_defs list_ex_iff)

subsection \<open>C4: where entities are spawned\<close>

text \<open>
  Claim C4 says that a spawned obstacle, 60 by 60, has \<open>y\<close> in \<open>[0, 600 - 60]\<close>.
  \<^verbatim>\<open>spawnObstacle\<close> scales its draw by \<open>600 - 40\<close>, the range of a collectible: at the
  draw 0.99 the obstacle is placed at \<open>y = 554.4\<close>, above 540, and reaches below the
  playfield. (\<open>spawnCollectible_geometry\<close> and \<open>spawnObstacle_geometry\<close> give what
  holds for every draw in \<open>[0, 1)\<close>.)
\<close>

theorem spawned_obstacle_overhangs_playfield:
  "y (spawnObstacle 0.5 0.5 0.99) = 554.4 \<and>
   height (spawnObstacle 0.5 0.5 0.99) = 60 \<and>
   \<not> y (spawnObstacle 0.5 0.5 0.99) \<le> BASE_GAME_HEIGHT - height (spawnObstacle 0.5 0.5 0.99) \<and>
   BASE_GAME_HEIGHT < y (spawnObstacle 0.5 0.5 0.99) + height (spawnObstacle 0.5 0.5 0.99)"
  by (simp add: spawnObstacle_def consts_defs)

subsection \<open>C5: the player stays inside the playfield\<close>



subsection \<open>C6: the steps of the difficulty multiplier\<close>

text \<open>
  Claim C6 says that the difficulty multiplier is \<open>1 + floor (s / 100) * 0.2\<close> and
  increases by exactly 0.2 at each multiple of 100. The code computes in doubles: at the
  score 300 it returns the double \<open>7205759403792794 / 2^52\<close>, which is not the real
  \<open>1.6\<close>; it exceeds the value at 250 by more than 0.2, and it is not the double sum
  of that value and 0.2 either. At 700 it returns \<open>5404319552844596 / 2^51\<close>, printed
  \<open>2.4000000000000004\<close>.
\<close>

theorem multiplier_step_is_not_exactly_0_2:
  "getDifficultyMultiplier 250 = 6305039478318694 / 2 ^ 52 \<and>
   getDifficultyMultiplier 300 = 7205759403792794 / 2 ^ 52 \<and>
   getDifficultyMultiplier 300 \<noteq> 1 + of_int \<lfloor>300 / 100 :: real\<rfloor> * 0.2 \<and>
   getDifficultyMultiplier 300 - getDifficultyMultiplier 250 \<noteq> 0.2 \<and>
   getDifficultyMultiplier 300 \<noteq> roundDouble (getDifficultyMultiplier 250 + roundDouble 0.2) \<and>
   getDifficultyMultiplier 700 = 5404319552844596 / 2 ^ 51 \<and>
   getDifficultyMultiplier 700 \<noteq> 1 + of_int \<lfloor>700 / 100 :: real\<rfloor> * 0.2"
  unfolding getDifficultyMultiplier_250 getDifficultyMultiplier_300 getDifficultyMultiplier_700
    sum_250_plus_0_2
  by simp

text \<open>
  Claim C6, amended. For every score \<open>s\<close>, the difficulty multiplier is
  \<open>1 + floor (s / 100) * 0.2\<close> evaluated in double arithmetic, each of the division, the
  product and the sum rounded to the nearest double. It is non-decreasing in \<open>s \<ge> 0\<close>.
  For \<open>0 \<le> k < 2^40\<close> and a score from \<open>100 * k\<close> to \<open>100 * k + 99\<close> (every integer
  score of that hundred) the rounded quotient has the floor \<open>k\<close>, the multiplier is the
  one at \<open>100 * k\<close>, and the multiplier at \<open>100 * (k + 1)\<close> is strictly greater, by 0.2
  up to a rounding error of at most \<open>(k + 3) / 2^53\<close>.
\<close>

theorem difficulty_multiplier_rounded_steps:
  fixes s t :: real and k :: int
  shows
    "getDifficultyMultiplier s =
       roundDouble (1 + roundDouble (of_int \<lfloor>roundDouble (s / 100)\<rfloor> * roundDouble 0.2)) \<and>
     (0 \<le> s \<and> s \<le> t \<longrightarrow> getDifficultyMultiplier s \<le> getDifficultyMultiplier t) \<and>
     (0 \<le> k \<and> k < 2 ^ 40 \<and> 100 * of_int k \<le> s \<and> s \<le> 100 * of_int k + 99 \<longrightarrow>
        \<lfloor>roundDouble (s / 100)\<rfloor> = \<lfloor>s / 100\<rfloor> \<and>
        getDifficultyMultiplier s = getDifficultyMultiplier (100 * of_int k) \<and>
        getDifficultyMultiplier s < getDifficultyMultiplier (100 * (of_int k + 1)) \<and>
        \<bar>getDifficultyMultiplier (100 * (of_int k + 1)) - getDifficultyMultiplier s - 0.2\<bar>
          \<le> (of_int k + 3) / 2 ^ 53)"
proof (intro conjI impI)
  show "getDifficultyMultiplier s =
       roundDouble (1 + roundDouble (of_int \<lfloor>roundDouble (s / 100)\<rfloor> * roundDouble 0.2))"
    by (rule getDifficultyMultiplier_def)
  show "getDifficultyMultiplier s \<le> getDifficultyMultiplier t" if "0 \<le> s \<and> s \<le> t"
    using that by (intro getDifficultyMultiplier_mono) simp_all
  assume h: "0 \<le> k \<and> k < 2 ^ 40 \<and> 100 * of_int k \<le> s \<and> s \<le> 100 * of_int k + 99"
  then have k: "0 \<le> k" "k < 2 ^ 40" and s: "100 * of_int k \<le> s" "s \<le> 100 * of_int k + 99"
    by simp_all
  have k45: "k < 2 ^ 45" using k(2) by simp
  have fl: "\<lfloor>s / 100\<rfloor> = k" using s by (intro floor_unique) simp_all
  show "\<lfloor>roundDouble (s / 100)\<rfloor> = \<lfloor>s / 100\<rfloor>"
    unfolding fl using k(1) k45 s by (rule floor_hundreds)
  define F where "F = (\<lambda>n. roundDouble (1 + roundDouble (of_int n * roundDouble 0.2)))"
  have here: "getDifficultyMultiplier s = F k"
    unfolding F_def using k(1) k45 s by (rule getDifficultyMultiplier_hundreds)
  have base: "getDifficultyMultiplier (100 * of_int k) = F k"
    unfolding F_def using k(1) k45 by (intro getDifficultyMultiplier_hundreds) simp_all
  have k1: "0 \<le> k + 1" "k + 1 < 2 ^ 45" using k by simp_all
  have "getDifficultyMultiplier (100 * of_int (k + 1)) = F (k + 1)"
    unfolding F_def using k1 by (intro getDifficultyMultiplier_hundreds) simp_all
  then have nxt: "getDifficultyMultiplier (100 * (of_int k + 1)) = F (k + 1)" by simp
  show "getDifficultyMultiplier s = getDifficultyMultiplier (100 * of_int k)"
    by (simp only: here base)
  have est: "\<bar>F (k + 1) - F k - 0.2\<bar> \<le> (of_int k + 3) / 2 ^ 53"
    unfolding F_def using k(1) by (rule step_estimate)
  show "\<bar>getDifficultyMultiplier (100 * (of_int k + 1)) - getDifficultyMultiplier s - 0.2\<bar>
          \<le> (of_int k + 3) / 2 ^ 53"
    unfolding here nxt by (rule est)
  have "of_int k < (2::real) ^ 40" using k(2)
    by (metis of_int_less_iff of_int_numeral of_int_power)
  then have small: "(of_int k + 3) / 2 ^ 53 < (0.2::real)" by simp
  from abs_le_D2 [OF est] have "0.2 - (of_int k + 3) / 2 ^ 53 \<le> F (k + 1) - F k"
    by linarith
  with small have "F k < F (k + 1)" by linarith
  then show "getDifficultyMultiplier s < getDifficultyMultiplier (100 * (of_int k + 1))"
    by (simp only: here nxt)
qed

theorem difficulty_multiplier_rounded_steps_witness:
  "(0 \<le> (250::real) \<and> (250::real) \<le> 300) \<and>
   getDifficultyMultiplier 250 \<le> getDifficultyMultiplier 300 \<and>
   (0 \<le> (2::int) \<and> (2::int) < 2 ^ 40 \<and> 100 * of_int 2 \<le> (250::real) \<and>
      (250::real) \<le> 100 * of_int 2 + 99) \<and>
   (\<lfloor>roundDouble (250 / 100)\<rfloor> = \<lfloor>250 / 100 :: real\<rfloor> \<and>
    getDifficultyMultiplier 250 = getDifficultyMultiplier (100 * of_int 2) \<and>
    getDifficultyMultiplier 250 < getDifficultyMultiplier (100 * (of_int 2 + 1)) \<and>
    \<bar>getDifficultyMultiplier (100 * (of_int 2 + 1)) - getDifficultyMultiplier 250 - 0.2\<bar>
      \<le> (of_int 2 + 3) / 2 ^ 53)"
proof -
  have h1: "0 \<le> (250::real) \<and> (250::real) \<le> 300" by simp
  have h2: "0 \<le> (2::int) \<and> (2::int) < 2 ^ 40 \<and> 100 * of_int 2 \<le> (250::real) \<and>
      (250::real) \<le> 100 * of_int 2 + 99" by simp
  note t = difficulty_multiplier_rounded_steps [of 250 300 2, THEN conjunct2]
  from t h1 have c1: "getDifficultyMultiplier 250 \<le> getDifficultyMultiplier 300" by blast
  from t h2 have c2: "\<lfloor>roundDouble (250 / 100)\<rfloor> = \<lfloor>250 / 100 :: real\<rfloor> \<and>
    getDifficultyMultiplier 250 = getDifficultyMultiplier (100 * of_int 2) \<and>
    getDifficultyMultiplier 250 < getDifficultyMultiplier (100 * (of_int 2 + 1)) \<and>
    \<bar>getDifficultyMultiplier (100 * (of_int 2 + 1)) - getDifficultyMultiplier 250 - 0.2\<bar>
      \<le> (of_int 2 + 3) / 2 ^ 53" by blast
  from h1 c1 h2 c2 show ?thesis by blast
qed

subsection \<open>C7: time left is never negative, the score never falls\<close>

text \<open>
  Claim C7. Across every operation on the session (an evaluated tick with collision
  resolution, the one-second decrement, and also a jump, a power-up expiry and a
  restart), \<open>timeLeft\<close> never becomes negative: every step keeps it non-negative, so it
  is non-negative after every run from the initial session. The score does not decrease
  in any step other than a restart, nor along a run without restart.
\<close>

theorem timeLeft_nonnegative_score_nondecreasing:
  fixes w :: World and e :: Event and es :: "Event list"
  shows "(0 \<le> timeLeft (session w) \<longrightarrow> 0 \<le> timeLeft (session (step e w))) \<and>
         0 \<le> timeLeft (session (run es initialWorld)) \<and>
         (e \<noteq> Restart \<longrightarrow> score (session w) \<le> score (session (step e w))) \<and>
         (Restart \<notin> set es \<longrightarrow> score (session w) \<le> score (session (run es w)))"
proof -
  have "0 \<le> timeLeft (session initialWorld)"
    by (simp add: initialWorld_def initialGameState_def consts_defs)
  then have "0 \<le> timeLeft (session (run es initialWorld))"
    by (rule run_timeLeft_nonneg)
  then show ?thesis
    by (simp add: step_timeLeft_nonneg step_score_mono run_score_mono)
qed

theorem timeLeft_nonnegative_score_nondecreasing_witness:
  "0 \<le> timeLeft (session initialWorld) \<and>
   0 \<le> timeLeft (session (step TimerSecond initialWorld)) \<and>
   TimerSecond \<noteq> Restart \<and>
   score (session initialWorld) \<le> score (session (step TimerSecond initialWorld)) \<and>
   Restart \<notin> set [Frame 1000 noSpawn, Frame 1017 noSpawn, TimerSecond] \<and>
   score (session initialWorld) \<le>
     score (session (run [Frame 1000 noSpawn, Frame 1017 noSpawn, TimerSecond] initialWorld))"
proof -
  have h: "0 \<le> timeLeft (session initialWorld)"
    by (simp add: initialWorld_def initialGameState_def consts_defs)
  from timeLeft_nonnegative_score_nondecreasing
    [of initialWorld TimerSecond "[Frame 1000 noSpawn, Frame 1017 noSpawn, TimerSecond]"] h
  show ?thesis by simp
qed

subsection \<open>C8: a paused or finished session\<close>

text \<open>
  Claim C8 says that while \<open>isPaused\<close> or \<open>isGameOver\<close> holds no operation other than
  an explicit transition changes the session. The first game ends in a finished session;
  a jump then still sets the player's velocity, and the expiry that falls due at 9617
  still clears \<open>hasDoublePoints\<close>.
\<close>

theorem jump_and_expiry_change_finished_session:
  "isGameOver (session (run firstGame initialWorld)) \<and>
   Jump \<noteq> Restart \<and>
   session (step Jump (run firstGame initialWorld)) \<noteq> session (run firstGame initialWorld) \<and>
   Timeouts 9617 \<noteq> Restart \<and>
   session (step (Timeouts 9617) (run firstGame initialWorld)) \<noteq>
     session (run firstGame initialWorld)"
proof -
  have v: "velocity (player (session (step Jump (run firstGame initialWorld)))) = - 7"
    "velocity (player (session (run firstGame initialWorld))) = 1.2"
    unfolding firstGame_result by (simp_all add: handleInteraction_def consts_defs)
  have f: "\<not> hasDoublePoints (player (session (step (Timeouts 9617) (run firstGame initialWorld))))"
    "hasDoublePoints (player (session (run firstGame initialWorld)))"
    unfolding firstGame_result by (simp_all add: fireTimeouts_def)
  have "isGameOver (session (run firstGame initialWorld))"
    unfolding firstGame_result by simp
  moreover from v have "session (step Jump (run firstGame initialWorld)) \<noteq>
      session (run firstGame initialWorld)" by auto
  moreover from f have "session (step (Timeouts 9617) (run firstGame initialWorld)) \<noteq>
     session (run firstGame initialWorld)" by auto
  ultimately show ?thesis by simp
qed

text \<open>
  Claim C8, amended. While \<open>isPaused\<close> or \<open>isGameOver\<close> holds, an evaluated tick
  returns the snapshot unchanged and sets no timeout, and the one-second timer does not
  decrement. Every other step that is not a restart (a jump, the expiries that fall due)
  changes at most the player's velocity and its two power-up flags, and can only clear
  the flags.
\<close>

theorem only_player_status_changes_when_paused_or_over:
  fixes w :: World and e :: Event and dt ts :: real and d :: Draws
  assumes "isGameOver (session w) \<or> isPaused (session w)"
  shows
    "gameLoopUpdate dt d (session w) = (session w, []) \<and>
     session (step (Frame ts d) w) = session w \<and>
     pending (step (Frame ts d) w) = pending w \<and>
     session (step TimerSecond w) = session w \<and>
     (e \<noteq> Restart \<longrightarrow>
        session (step e w) =
          (session w)\<lparr> player := (player (session w))\<lparr>
             velocity := velocity (player (session (step e w))),
             isInvincible := isInvincible (player (session (step e w))),
             hasDoublePoints := hasDoublePoints (player (session (step e w))) \<rparr> \<rparr> \<and>
        (isInvincible (player (session (step e w))) \<longrightarrow> isInvincible (player (session w))) \<and>
        (hasDoublePoints (player (session (step e w))) \<longrightarrow>
           hasDoublePoints (player (session w))))"
proof (intro conjI impI)
  show "gameLoopUpdate dt d (session w) = (session w, [])"
    using assms by (simp add: gameLoopUpdate_def)
  show "session (step (Frame ts d) w) = session w"
    using gameLoop_idle [OF assms] by simp
  show "pending (step (Frame ts d) w) = pending w"
    using gameLoop_idle [OF assms] by simp
  show idle: "session (step TimerSecond w) = session w"
    using assms by (auto simp add: timerEffect_def)
  assume ne: "e \<noteq> Restart"
  have same: "session (gameLoop ts' d' w) = session w" for ts' d'
    using gameLoop_idle [OF assms] by simp
  show "session (step e w) =
          (session w)\<lparr> player := (player (session w))\<lparr>
             velocity := velocity (player (session (step e w))),
             isInvincible := isInvincible (player (session (step e w))),
             hasDoublePoints := hasDoublePoints (player (session (step e w))) \<rparr> \<rparr>"
  proof (cases e)
    case (Frame ts' d')
    then show ?thesis by (simp add: same)
  next
    case TimerSecond
    with idle show ?thesis by simp
  next
    case Jump
    then show ?thesis by (simp add: handleInteraction_def)
  next
    case (Timeouts now)
    define r where "r = runDue now (pending w) (session w)"
    have vel: "velocity (player r) = velocity (player (session w))"
      unfolding r_def by (rule runDue_velocity)
    have "r = (session w)\<lparr> player := (player (session w))\<lparr>
        isInvincible := isInvincible (player r),
        hasDoublePoints := hasDoublePoints (player r) \<rparr> \<rparr>"
      unfolding r_def by (rule runDue_shape)
    then have "r = (session w)\<lparr> player := (player (session w))\<lparr>
        velocity := velocity (player r),
        isInvincible := isInvincible (player r),
        hasDoublePoints := hasDoublePoints (player r) \<rparr> \<rparr>"
      by (simp add: vel)
    with Timeouts show ?thesis by (simp add: fireTimeouts_def r_def)
  next
    case Restart
    with ne show ?thesis by simp
  qed
  show "isInvincible (player (session w))" if "isInvincible (player (session (step e w)))"
  proof (cases e)
    case (Frame ts' d')
    with that show ?thesis by (simp add: same)
  next
    case TimerSecond
    with idle that show ?thesis by simp
  next
    case Jump
    with that show ?thesis by (simp add: handleInteraction_def)
  next
    case (Timeouts now)
    with that runDue_flags_only_cleared [of now "pending w" "session w"] show ?thesis
      by (simp add: fireTimeouts_def)
  next
    case Restart
    with ne show ?thesis by simp
  qed
  show "hasDoublePoints (player (session w))" if "hasDoublePoints (player (session (step e w)))"
  proof (cases e)
    case (Frame ts' d')
    with that show ?thesis by (simp add: same)
  next
    case TimerSecond
    with idle that show ?thesis by simp
  next
    case Jump
    with that show ?thesis by (simp add: handleInteraction_def)
  next
    case (Timeouts now)
    with that runDue_flags_only_cleared [of now "pending w" "session w"] show ?thesis
      by (simp add: fireTimeouts_def)
  next
    case Restart
    with ne show ?thesis by simp
  qed
qed

theorem only_player_status_changes_when_paused_or_over_witness:
  "(isGameOver (session (run firstGame initialWorld)) \<or>
    isPaused (session (run firstGame initialWorld))) \<and>
   gameLoopUpdate 17 noSpawn (session (run firstGame initialWorld)) =
     (session (run firstGame initialWorld), []) \<and>
   session (step TimerSecond (run firstGame initialWorld)) = session (run firstGame initialWorld) \<and>
   Jump \<noteq> Restart \<and>
   score (session (step Jump (run firstGame initialWorld))) = 15"
proof -
  have h: "isGameOver (session (run firstGame initialWorld)) \<or>
    isPaused (session (run firstGame initialWorld))"
    unfolding firstGame_result by simp
  have sc: "score (session (run firstGame initialWorld)) = 15"
    unfolding firstGame_result by simp
  have ne: "Jump \<noteq> Restart" by simp
  from only_player_status_changes_when_paused_or_over [OF h, of 17 noSpawn 4694 Jump]
  have "gameLoopUpdate 17 noSpawn (session (run firstGame initialWorld)) =
     (session (run firstGame initialWorld), [])"
    and "session (step TimerSecond (run firstGame initialWorld)) = session (run firstGame initialWorld)"
    and "score (session (step Jump (run firstGame initialWorld))) =
      score (session (run firstGame initialWorld))"
    using ne by (simp_all add: handleInteraction_def)
  with h sc ne show ?thesis by simp
qed

subsection \<open>C9: an expiry that outlives its session\<close>

text \<open>
  Claim C9 says that an expiry callback firing after a restart never clears a flag of the
  new session's player. The timeout set at frame 4617 of the first game is still pending
  after the restart; the second game arms double points at frame 9600, and at 9617 the
  old timeout clears the flag of the new session, 17 ms after it was armed.
\<close>

theorem stale_expiry_clears_flag_after_restart:
  "pending (run firstGame initialWorld) = [(9617, ClearDoublePoints)] \<and>
   secondGame ! 1 = Restart \<and>
   hasDoublePoints (player (session (run (firstGame @ secondGame) initialWorld))) \<and>
   pending (run (firstGame @ secondGame) initialWorld) =
     [(9617, ClearDoublePoints), (14600, ClearDoublePoints)] \<and>
   \<not> hasDoublePoints
       (player (session (run (firstGame @ secondGame @ [Timeouts 9617]) initialWorld))) \<and>
   pending (run (firstGame @ secondGame @ [Timeouts 9617]) initialWorld) =
     [(14600, ClearDoublePoints)]"
proof -
  have "run (firstGame @ secondGame @ [Timeouts 9617]) initialWorld =
      step (Timeouts 9617) (run (firstGame @ secondGame) initialWorld)"
    using run_append [of "firstGame @ secondGame" "[Timeouts 9617]" initialWorld] by simp
  then show ?thesis
    unfolding firstGame_result secondGame_result
    by (simp add: secondGame_def fireTimeouts_def)
qed

text \<open>
  Claim C9, amended. A restart leaves every pending expiry in place. An expiry that falls
  due clears its flag on the player of whatever session is current and changes nothing
  else; it is a no-op exactly when that flag is already false, as it is on a session
  that was just restarted.
\<close>

theorem expiry_acts_on_current_session:
  fixes w :: World and s :: GameState and now due :: real
  shows
    "pending (step Restart w) = pending w \<and>
     session (step (Timeouts now) (step Restart w)) = session (step Restart w) \<and>
     (expiryCallback ClearDoublePoints s = s \<longleftrightarrow> \<not> hasDoublePoints (player s)) \<and>
     (expiryCallback ClearInvincible s = s \<longleftrightarrow> \<not> isInvincible (player s)) \<and>
     ((due, ClearDoublePoints) \<in> set (pending w) \<and> due \<le> now \<longrightarrow>
        \<not> hasDoublePoints (player (session (step (Timeouts now) w)))) \<and>
     ((due, ClearInvincible) \<in> set (pending w) \<and> due \<le> now \<longrightarrow>
        \<not> isInvincible (player (session (step (Timeouts now) w)))) \<and>
     session (step (Timeouts now) w) =
       (session w)\<lparr> player := (player (session w))\<lparr>
          isInvincible := isInvincible (player (session (step (Timeouts now) w))),
          hasDoublePoints := hasDoublePoints (player (session (step (Timeouts now) w))) \<rparr> \<rparr>"
proof (intro conjI impI)
  show "pending (step Restart w) = pending w" by simp
  show "session (step (Timeouts now) (step Restart w)) = session (step Restart w)"
    by (simp add: fireTimeouts_def restartGame_def initialPlayer_def runDue_noop)
  show "(expiryCallback ClearDoublePoints s = s) = (\<not> hasDoublePoints (player s))"
    by (rule expiryCallback_noop)
  show "(expiryCallback ClearInvincible s = s) = (\<not> isInvincible (player s))"
    by (rule expiryCallback_noop)
  show "\<not> hasDoublePoints (player (session (step (Timeouts now) w)))"
    if "(due, ClearDoublePoints) \<in> set (pending w) \<and> due \<le> now"
    using that runDue_clears [of due ClearDoublePoints "pending w" now "session w"]
    by (simp add: fireTimeouts_def)
  show "\<not> isInvincible (player (session (step (Timeouts now) w)))"
    if "(due, ClearInvincible) \<in> set (pending w) \<and> due \<le> now"
    using that runDue_clears [of due ClearInvincible "pending w" now "session w"]
    by (simp add: fireTimeouts_def)
  show "session (step (Timeouts now) w) =
       (session w)\<lparr> player := (player (session w))\<lparr>
          isInvincible := isInvincible (player (session (step (Timeouts now) w))),
          hasDoublePoints := hasDoublePoints (player (session (step (Timeouts now) w))) \<rparr> \<rparr>"
    using runDue_shape [of now "pending w" "session w"] by (simp add: fireTimeouts_def)
qed

theorem expiry_acts_on_current_session_witness:
  "(9617, ClearDoublePoints) \<in> set (pending (run (firstGame @ secondGame) initialWorld)) \<and>
   (9617::real) \<le> 9617 \<and>
   hasDoublePoints (player (session (run (firstGame @ secondGame) initialWorld))) \<and>
   \<not> hasDoublePoints
       (player (session (step (Timeouts 9617) (run (firstGame @ secondGame) initialWorld))))"
proof -
  have h: "(9617, ClearDoublePoints) \<in> set (pending (run (firstGame @ secondGame) initialWorld))"
    and f: "hasDoublePoints (player (session (run (firstGame @ secondGame) initialWorld)))"
    unfolding secondGame_result by simp_all
  from expiry_acts_on_current_session
    [of "run (firstGame @ secondGame) initialWorld" 9617 _ 9617] h f
  show ?thesis by simp
qed

subsection \<open>C10: the score multiplier is the one from before the tick\<close>

text \<open>
  Claim C10. When several collectibles are collected in one tick, every score
  contribution uses the player's \<open>hasDoublePoints\<close> from before the tick. A token
  collected in the same tick as a \<open>moonRocket\<close> scores its undoubled 10 (15 + 10 for
  the pair), although the flag is armed in that tick.
\<close>

theorem score_multiplier_fixed_before_tick:
  fixes dt :: real and d :: Draws and prev :: GameState
  assumes "\<not> isGameOver prev" and "\<not> isPaused prev"
  shows
    "(let moved = newState dt d prev;
          s' = fst (gameLoopUpdate dt d prev);
          hit = filter (hasCollided (player moved)) (collectibles moved)
      in score s' = score prev +
           (if hasDoublePoints (player prev) then 2 else 1) * (\<Sum>c\<leftarrow>hit. SCORE_VALUES (ctype c)) \<and>
         (\<not> hasDoublePoints (player prev) \<and> (\<exists>r\<in>set hit. ctype r = moonRocket) \<longrightarrow>
            hasDoublePoints (player s') \<and>
            score s' = score prev + (\<Sum>c\<leftarrow>hit. SCORE_VALUES (ctype c))) \<and>
         (\<forall>r t. \<not> hasDoublePoints (player prev) \<and> hit = [r, t] \<and>
                ctype r = moonRocket \<and> ctype t = token \<longrightarrow>
            hasDoublePoints (player s') \<and> score s' = score prev + 15 + 10))"
proof -
  define moved where "moved = newState dt d prev"
  define s' where "s' = fst (gameLoopUpdate dt d prev)"
  define hit where "hit = filter (hasCollided (player moved)) (collectibles moved)"
  have s': "s' = fst (checkCollisions moved)"
    unfolding s'_def moved_def by (rule tick_playing [OF assms])
  have flag: "hasDoublePoints (player moved) = hasDoublePoints (player prev)"
    and sc: "score moved = score prev"
    by (simp_all add: moved_def newState_fields integratePlayer_fields)
  have total: "score s' = score prev +
      (if hasDoublePoints (player prev) then 2 else 1) * (\<Sum>c\<leftarrow>hit. SCORE_VALUES (ctype c))"
    by (simp add: s' checkCollisions_fst sum_list_updateScore flag sc hit_def)
  have armed: "hasDoublePoints (player s')" if "r \<in> set hit" "ctype r = moonRocket" for r
    using that by (auto simp add: s' checkCollisions_fst hit_def)
  have pair: "hasDoublePoints (player s') \<and> score s' = score prev + 15 + 10"
    if "\<not> hasDoublePoints (player prev)" "hit = [r, t]" "ctype r = moonRocket" "ctype t = token"
    for r t
    using that armed [of r] total by simp
  show ?thesis
    unfolding Let_def moved_def [symmetric] s'_def [symmetric] hit_def [symmetric]
    using total armed pair by auto
qed

theorem score_multiplier_fixed_before_tick_witness:
  "\<not> isGameOver rocketThenToken \<and> \<not> isPaused rocketThenToken \<and>
   \<not> hasDoublePoints (player rocketThenToken) \<and>
   hasDoublePoints (player (fst (gameLoopUpdate 17 noSpawn rocketThenToken))) \<and>
   score (fst (gameLoopUpdate 17 noSpawn rocketThenToken)) = score rocketThenToken + 15 + 10"
proof -
  have h: "\<not> isGameOver rocketThenToken" "\<not> isPaused rocketThenToken"
    by (simp_all add: rocketThenToken_def initialGameState_def)
  have pre: "\<not> hasDoublePoints (player rocketThenToken)"
    by (simp add: rocketThenToken_def initialGameState_def initialPlayer_def)
  have hit: "filter (hasCollided (player (newState 17 noSpawn rocketThenToken)))
      (collectibles (newState 17 noSpawn rocketThenToken)) =
      [mkCollectible moonRocket (110 - 51 / 16) 300, mkCollectible token (120 - 51 / 16) 310]"
    unfolding rocketThenToken_moved
    by (simp add: hasCollided_def initialPlayer_def mkCollectible_def consts_defs)
  have kinds: "ctype (mkCollectible moonRocket (110 - 51 / 16) 300) = moonRocket"
    "ctype (mkCollectible token (120 - 51 / 16) 310) = token"
    by (simp_all add: mkCollectible_def)
  from score_multiplier_fixed_before_tick [OF h, of 17 noSpawn] h pre hit kinds
  show ?thesis by (simp add: Let_def)
qed

end
